theory Spec2Isabelle
  imports Main "HOL-Library.AList"
begin

section \<open>Data model\<close>

text \<open>
  Configuration values are JSON-like JavaScript values. Only their truthiness is
  inspected by the registry (\<^verbatim>\<open>plugin.config || {}\<close>).
\<close>

datatype json =
    JUndefined
  | JNull
  | JBool bool
  | JNum int
  | JStr string
  | JArr "json list"
  | JObj "(string \<times> json) list"

fun json_truthy :: "json \<Rightarrow> bool" where
  "json_truthy JUndefined = False"
| "json_truthy JNull = False"
| "json_truthy (JBool b) = b"
| "json_truthy (JNum n) = (n \<noteq> 0)"
| "json_truthy (JStr s) = (s \<noteq> [])"
| "json_truthy (JArr xs) = True"
| "json_truthy (JObj kvs) = True"

text \<open>\<^verbatim>\<open>PluginManifest\<close>: \<^verbatim>\<open>description\<close> and \<^verbatim>\<open>runtime\<close> are optional.\<close>

record plugin_manifest =
  m_name :: string
  m_displayName :: string
  m_description :: "string option"
  m_version :: string
  m_type :: string
  m_runtime :: "string option"

text \<open>
  The argument of \<^verbatim>\<open>new PluginRunner({pluginId, pluginPath, pluginConfig})\<close>, kept by
  the runner as \<^verbatim>\<open>runner.config\<close>.
\<close>

record runner_config =
  pluginId :: string
  pluginPath :: string
  pluginConfig :: json

record plugin_runner =
  rn_config :: runner_config

text \<open>\<^verbatim>\<open>LoadedPlugin = {id, alias, runner, manifest}\<close>.\<close>

record loaded_plugin =
  lp_id :: string
  lp_alias :: string
  lp_runner :: plugin_runner
  lp_manifest :: plugin_manifest

text \<open>
  The values a property read on one of the registry's tables can produce. The tables are
  plain object literals (\<^verbatim>\<open>plugins: Record<string, LoadedPlugin> = {}\<close>), so a read
  \<^verbatim>\<open>table[key]\<close> follows the prototype chain: besides a stored value it can yield a member
  of \<^verbatim>\<open>Object.prototype\<close> (\<open>VBuiltin\<close>), or a field of an object that was installed as the
  table's prototype by an assignment to the key \<^verbatim>\<open>__proto__\<close>.
\<close>

datatype js_val =
    VUndefined
  | VString string
  | VManifest plugin_manifest
  | VRunner plugin_runner
  | VPlugin loaded_plugin
  | VBuiltin string

fun truthy :: "js_val \<Rightarrow> bool" where
  "truthy VUndefined = False"
| "truthy (VString s) = (s \<noteq> [])"
| "truthy (VManifest m) = True"
| "truthy (VRunner r) = True"
| "truthy (VPlugin p) = True"
| "truthy (VBuiltin k) = True"

text \<open>\<^verbatim>\<open>PluginRegistry.Error.Details\<close> and the exceptions that travel through the registry.\<close>

record error_details =
  d_alias :: string
  d_path :: string
  d_manifest :: js_val

datatype js_exn =
    RegistryError string error_details js_exn
      \<comment> \<open>\<^verbatim>\<open>new PluginRegistry.Error(message, pluginDetails, causedBy)\<close>\<close>
  | ZodError "string list"
      \<comment> \<open>the issues, each already rendered by \<^verbatim>\<open>fromZodIssue\<close>\<close>
  | TypeError string
  | DuplicateKey string
      \<comment> \<open>the store rejects a second document with the same \<^verbatim>\<open>_id\<close>\<close>
  | Thrown string
      \<comment> \<open>any other value thrown by a plugin, a runner or a loader\<close>

fun is_registry_error :: "js_exn \<Rightarrow> bool" where
  "is_registry_error (RegistryError msg d c) = True"
| "is_registry_error (ZodError is) = False"
| "is_registry_error (TypeError s) = False"
| "is_registry_error (DuplicateKey s) = False"
| "is_registry_error (Thrown s) = False"

text \<open>
  \<^verbatim>\<open>UnbodyPlugins.Registration\<close>: \<^verbatim>\<open>config\<close> is a value or a nullary function; the function
  is represented by what calling it produces.
\<close>

datatype registration_config =
    ConfigValue json
  | ConfigFunction "js_exn + json"

record registration =
  reg_alias :: string
  reg_path :: string
  reg_config :: registration_config

subsection \<open>Object literals used as tables\<close>

text \<open>
  An object created by \<^verbatim>\<open>{}\<close>: its own properties in the order in which
  \<^verbatim>\<open>Object.values\<close> enumerates them, and the object installed as its prototype by an
  assignment \<^verbatim>\<open>obj['__proto__'] = v\<close> (\<open>None\<close>: still \<^verbatim>\<open>Object.prototype\<close>).
\<close>

record 'v js_object =
  own_props :: "(string \<times> 'v) list"
  proto_obj :: "'v option"

definition empty_object :: "'v js_object" where
  "empty_object = \<lparr>own_props = [], proto_obj = None\<rparr>"

text \<open>The property names every object inherits from \<^verbatim>\<open>Object.prototype\<close>.\<close>

definition object_prototype_names :: "string list" where
  "object_prototype_names =
     [''constructor'', ''__defineGetter__'', ''__defineSetter__'', ''hasOwnProperty'',
      ''__lookupGetter__'', ''__lookupSetter__'', ''isPrototypeOf'',
      ''propertyIsEnumerable'', ''toString'', ''valueOf'', ''__proto__'',
      ''toLocaleString'']"

text \<open>
  Own property keys that are array indices (canonical decimal numerals below
  \<open>2\<^sup>3\<^sup>2 - 1\<close>) are enumerated first, in ascending numeric order; all other string keys
  follow in insertion order.
\<close>

definition is_digit :: "char \<Rightarrow> bool" where
  "is_digit c = (48 \<le> (of_char c :: nat) \<and> (of_char c :: nat) \<le> 57)"

definition index_value :: "string \<Rightarrow> nat" where
  "index_value s = foldl (\<lambda>n c. 10 * n + (of_char c - 48)) 0 s"

definition is_array_index :: "string \<Rightarrow> bool" where
  "is_array_index s =
     (case s of
        [] \<Rightarrow> False
      | c # cs \<Rightarrow>
          list_all is_digit s \<and> (if c = CHR ''0'' then cs = [] else True)
          \<and> index_value s < 4294967295)"

fun insert_index :: "string \<Rightarrow> 'v \<Rightarrow> (string \<times> 'v) list \<Rightarrow> (string \<times> 'v) list" where
  "insert_index k v [] = [(k, v)]"
| "insert_index k v (kv # rest) =
     (if is_array_index (fst kv) \<and> index_value (fst kv) < index_value k
      then kv # insert_index k v rest
      else (k, v) # kv # rest)"

text \<open>
  \<^verbatim>\<open>obj[k] = v\<close>. The key \<^verbatim>\<open>__proto__\<close> reaches the accessor on \<^verbatim>\<open>Object.prototype\<close>, which
  replaces the prototype and creates no own property. An existing key keeps its place.
\<close>

definition obj_set :: "'v js_object \<Rightarrow> string \<Rightarrow> 'v \<Rightarrow> 'v js_object" where
  "obj_set obj k v =
     (if k = ''__proto__'' then obj\<lparr>proto_obj := Some v\<rparr>
      else if map_of (own_props obj) k = None \<and> is_array_index k
           then obj\<lparr>own_props := insert_index k v (own_props obj)\<rparr>
      else obj\<lparr>own_props := AList.update k v (own_props obj)\<rparr>)"

text \<open>\<^verbatim>\<open>delete obj[k]\<close> removes an own property and nothing else.\<close>

definition obj_delete :: "'v js_object \<Rightarrow> string \<Rightarrow> 'v js_object" where
  "obj_delete obj k = obj\<lparr>own_props := AList.delete k (own_props obj)\<rparr>"

definition obj_values :: "'v js_object \<Rightarrow> 'v list" where
  "obj_values obj = map snd (own_props obj)"

text \<open>
  \<^verbatim>\<open>obj[k]\<close>, with \<open>emb\<close> embedding a stored value and \<open>fld\<close> giving the properties of a
  stored value (for the case where one has become the prototype). Since no write creates
  an own property \<^verbatim>\<open>__proto__\<close>, that key always reaches the accessor.
\<close>

definition obj_get ::
  "('v \<Rightarrow> js_val) \<Rightarrow> ('v \<Rightarrow> string \<Rightarrow> js_val option) \<Rightarrow> 'v js_object \<Rightarrow> string \<Rightarrow> js_val"
where
  "obj_get emb fld obj k =
     (if k = ''__proto__''
      then (case proto_obj obj of Some p \<Rightarrow> emb p | None \<Rightarrow> VBuiltin k)
      else
        (case map_of (own_props obj) k of
           Some v \<Rightarrow> emb v
         | None \<Rightarrow>
             (case (case proto_obj obj of Some p \<Rightarrow> fld p k | None \<Rightarrow> None) of
                Some x \<Rightarrow> x
              | None \<Rightarrow> if k \<in> set object_prototype_names then VBuiltin k else VUndefined)))"

definition plugin_field :: "loaded_plugin \<Rightarrow> string \<Rightarrow> js_val option" where
  "plugin_field p k =
     (if k = ''id'' then Some (VString (lp_id p))
      else if k = ''alias'' then Some (VString (lp_alias p))
      else if k = ''runner'' then Some (VRunner (lp_runner p))
      else if k = ''manifest'' then Some (VManifest (lp_manifest p))
      else None)"

definition manifest_field :: "plugin_manifest \<Rightarrow> string \<Rightarrow> js_val option" where
  "manifest_field m k =
     (if k = ''name'' then Some (VString (m_name m))
      else if k = ''displayName'' then Some (VString (m_displayName m))
      else if k = ''description'' then map_option VString (m_description m)
      else if k = ''version'' then Some (VString (m_version m))
      else if k = ''type'' then Some (VString (m_type m))
      else if k = ''runtime'' then map_option VString (m_runtime m)
      else None)"

definition plugins_get :: "loaded_plugin js_object \<Rightarrow> string \<Rightarrow> js_val" where
  "plugins_get = obj_get VPlugin plugin_field"

definition manifests_get :: "plugin_manifest js_object \<Rightarrow> string \<Rightarrow> js_val" where
  "manifests_get = obj_get VManifest manifest_field"


section \<open>The world outside the registry\<close>

text \<open>
  What the registry calls but does not define: the \<^verbatim>\<open>uuid\<close> library, the optional
  \<^verbatim>\<open>config.configLoader\<close> handed to the constructor, and the \<^verbatim>\<open>PluginRunner\<close> operations,
  each a function of the runner's configuration. A result \<open>Inl e\<close> (or \<open>Some e\<close> for an
  operation without a result) means that the call throws \<open>e\<close>.

  The loader receives the registration, the manifest and the registry's \<^verbatim>\<open>getManifest\<close>;
  the fourth argument of the source, \<^verbatim>\<open>defaultConfigLoader\<close>, is a fixed function that the
  loader may apply by itself.

  Each operation is a function of its arguments: the same call has the same outcome.
  The operations of the registry run one after the other, none interleaved with another.
\<close>

record world =
  uuid_v5 :: "string \<Rightarrow> string \<Rightarrow> string"
  configLoader ::
    "(registration \<Rightarrow> plugin_manifest \<Rightarrow> (string \<Rightarrow> js_val) \<Rightarrow> js_exn + json) option"
  runner_getManifest :: "runner_config \<Rightarrow> js_exn + plugin_manifest"
  runner_load :: "runner_config \<Rightarrow> js_exn option"
  runner_getSchema :: "runner_config \<Rightarrow> string \<Rightarrow> js_exn + (json \<Rightarrow> js_exn + json) option"
  runner_initialize :: "runner_config \<Rightarrow> js_exn option"
  runner_runTask :: "loaded_plugin \<Rightarrow> string \<Rightarrow> js_exn option"

text \<open>\<^verbatim>\<open>uuid.v5.URL\<close>, the namespace constant of the library.\<close>

definition uuid_v5_URL :: string where
  "uuid_v5_URL = ''6ba7b811-9dad-11d1-80b4-00c04fd430c8''"

section \<open>Registry state\<close>

text \<open>A document of the \<^verbatim>\<open>pluginState\<close> collection: \<^verbatim>\<open>{_id, manifest, alias}\<close>.\<close>

record state_doc =
  doc_id :: string
  doc_manifest :: plugin_manifest
  doc_alias :: string

text \<open>Observable effects, in the order in which they happen.\<close>

datatype event =
    RunTask loaded_plugin string
      \<comment> \<open>\<^verbatim>\<open>instance.runTask(name)({})\<close> on the instance of this plugin\<close>
  | ConsoleError js_exn

text \<open>
  The fields of \<^verbatim>\<open>PluginRegistry\<close>, the documents of \<^verbatim>\<open>models.pluginState\<close> in the order of
  their insertion, the aliases whose \<^verbatim>\<open>deleteOne\<close> has been started but not awaited, and
  the effects so far.
\<close>

record registry =
  manifests :: "plugin_manifest js_object"
  plugins :: "loaded_plugin js_object"
  providers :: "loaded_plugin js_object"
  fileParsers :: "loaded_plugin js_object"
  storage :: "loaded_plugin js_object"
  database :: "loaded_plugin js_object"
  enhancers :: "loaded_plugin js_object"
  generative :: "loaded_plugin js_object"
  rerankers :: "loaded_plugin js_object"
  textVectorizers :: "loaded_plugin js_object"
  imageVectorizers :: "loaded_plugin js_object"
  multimodalVectorizers :: "loaded_plugin js_object"
  pluginState :: "state_doc list"
  pendingDeletes :: "string list"
  trace :: "event list"

definition new_registry :: "state_doc list \<Rightarrow> registry" where
  "new_registry docs =
     \<lparr>manifests = empty_object, plugins = empty_object, providers = empty_object,
      fileParsers = empty_object, storage = empty_object, database = empty_object,
      enhancers = empty_object, generative = empty_object, rerankers = empty_object,
      textVectorizers = empty_object, imageVectorizers = empty_object,
      multimodalVectorizers = empty_object, pluginState = docs, pendingDeletes = [],
      trace = []\<rparr>"

subsection \<open>The persisted-state store\<close>

text \<open>
  \<^verbatim>\<open>findOne({alias})\<close> yields the first document with that alias; saving a new document
  fails when its \<^verbatim>\<open>_id\<close> is taken; \<^verbatim>\<open>deleteOne({alias})\<close> removes the first document with
  that alias. The store itself is taken to be reliable: no operation fails for a reason
  of its own, and a transaction whose callback throws is aborted, so that nothing it
  saved remains.
\<close>

definition findOne :: "string \<Rightarrow> state_doc list \<Rightarrow> state_doc option" where
  "findOne a docs = find (\<lambda>d. doc_alias d = a) docs"

definition save :: "state_doc \<Rightarrow> state_doc list \<Rightarrow> js_exn + state_doc list" where
  "save d docs =
     (if list_ex (\<lambda>d'. doc_id d' = doc_id d) docs then Inl (DuplicateKey (doc_id d))
      else Inr (docs @ [d]))"

fun deleteOne :: "string \<Rightarrow> state_doc list \<Rightarrow> state_doc list" where
  "deleteOne a [] = []"
| "deleteOne a (d # docs) = (if doc_alias d = a then docs else d # deleteOne a docs)"

text \<open>The started, un-awaited deletions run to completion.\<close>

definition settle :: "registry \<Rightarrow> registry" where
  "settle st =
     st\<lparr>pluginState := foldl (\<lambda>docs a. deleteOne a docs) (pluginState st) (pendingDeletes st),
        pendingDeletes := []\<rparr>"


section \<open>Plugin instances\<close>

text \<open>The classes \<^verbatim>\<open>getInstance\<close> chooses from; \<open>PluginInstance\<close> is the base class.\<close>

datatype instance_class =
    FileParserPluginInstance
  | ProviderPluginInstance
  | StoragePluginInstance
  | TextVectorizerPluginInstance
  | ImageVectorizerPluginInstance
  | MultimodalVectorizerPluginInstance
  | RerankerPluginInstance
  | DatabasePluginInstance
  | EnhancerPluginInstance
  | GenerativePluginInstance
  | PluginInstance

record plugin_instance =
  inst_class :: instance_class
  inst_plugin :: loaded_plugin
  inst_config :: json

text \<open>
  \<^verbatim>\<open>getInstance(plugin)\<close>: the switch on \<^verbatim>\<open>plugin.manifest.type\<close>. Evaluating the scrutinee
  on a value that is not a \<^verbatim>\<open>LoadedPlugin\<close> reads a property of \<^verbatim>\<open>undefined\<close>, which
  throws a \<^verbatim>\<open>TypeError\<close>; \<open>TypeError p\<close> stands for
  \<^verbatim>\<open>Cannot read properties of undefined (reading 'p')\<close>. None of the other values has a
  property \<^verbatim>\<open>manifest\<close>.
\<close>

definition class_of_type :: "string \<Rightarrow> instance_class" where
  "class_of_type t =
     (if t = ''file_parser'' then FileParserPluginInstance
      else if t = ''provider'' then ProviderPluginInstance
      else if t = ''storage'' then StoragePluginInstance
      else if t = ''text_vectorizer'' then TextVectorizerPluginInstance
      else if t = ''image_vectorizer'' then ImageVectorizerPluginInstance
      else if t = ''multimodal_vectorizer'' then MultimodalVectorizerPluginInstance
      else if t = ''reranker'' then RerankerPluginInstance
      else if t = ''database'' then DatabasePluginInstance
      else if t = ''enhancer'' then EnhancerPluginInstance
      else if t = ''generative'' then GenerativePluginInstance
      else PluginInstance)"

definition new_instance :: "loaded_plugin \<Rightarrow> plugin_instance" where
  "new_instance plugin =
     \<lparr>inst_class = class_of_type (m_type (lp_manifest plugin)), inst_plugin = plugin,
      inst_config = JObj []\<rparr>"

fun getInstance :: "js_val \<Rightarrow> js_exn + plugin_instance" where
  "getInstance (VPlugin plugin) = Inr (new_instance plugin)"
| "getInstance VUndefined = Inl (TypeError ''manifest'')"
| "getInstance (VString s) = Inl (TypeError ''type'')"
| "getInstance (VManifest m) = Inl (TypeError ''type'')"
| "getInstance (VRunner r) = Inl (TypeError ''type'')"
| "getInstance (VBuiltin k) = Inl (TypeError ''type'')"

text \<open>\<^verbatim>\<open>static methods: Array<keyof RerankerPlugin> = ['rerank']\<close>.\<close>

definition RerankerPluginInstance_methods :: "string list" where
  "RerankerPluginInstance_methods = [''rerank'']"

text \<open>
  Modelled from the spec: the method lists of \<^verbatim>\<open>ProviderPluginInstance\<close> and
  \<^verbatim>\<open>GenerativePluginInstance\<close>, whose files are not among the sources, as the table of
  capability method sets gives them.
\<close>

definition ProviderPluginInstance_methods :: "string list" where
  "ProviderPluginInstance_methods =
     [''connect'', ''verifyConnection'', ''listEntrypointOptions'', ''handleEntrypointUpdate'']"

definition GenerativePluginInstance_methods :: "string list" where
  "GenerativePluginInstance_methods = [''getSupportedModels'', ''generateText'']"

text \<open>
  Modelled from the spec: the base class \<^verbatim>\<open>PluginInstance\<close>, whose file is not among the
  sources. Its constructor receives the method list of the subclass
  (\<^verbatim>\<open>super(config, plugin, resources, RerankerPluginInstance.methods)\<close>) and exposes one method
  per name, each delegating to \<^verbatim>\<open>runner.runTask(name)(input)\<close>, next to the generic
  \<^verbatim>\<open>runTask\<close> used for the lifecycle hooks and the \<^verbatim>\<open>type\<close> getter that the subclass
  overrides. The list is known for the classes above; the base class itself passes none.
\<close>

definition static_methods :: "instance_class \<Rightarrow> string list option" where
  "static_methods c =
     (case c of
        RerankerPluginInstance \<Rightarrow> Some RerankerPluginInstance_methods
      | ProviderPluginInstance \<Rightarrow> Some ProviderPluginInstance_methods
      | GenerativePluginInstance \<Rightarrow> Some GenerativePluginInstance_methods
      | PluginInstance \<Rightarrow> Some []
      | _ \<Rightarrow> None)"

definition exposed_methods :: "plugin_instance \<Rightarrow> string list option" where
  "exposed_methods inst =
     map_option (\<lambda>ms. [''runTask'', ''type''] @ ms) (static_methods (inst_class inst))"

text \<open>
  Modelled from the spec: \<^verbatim>\<open>instance.runTask(name)({})\<close> of the base class invokes the named
  task of the plugin through its runner; the outcome is the world's.
\<close>

definition runTask ::
  "world \<Rightarrow> plugin_instance \<Rightarrow> string \<Rightarrow> registry \<Rightarrow> (js_exn + unit) \<times> registry"
where
  "runTask w inst task st =
     (let st' = st\<lparr>trace := trace st @ [RunTask (inst_plugin inst) task]\<rparr>
      in case runner_runTask w (inst_plugin inst) task of
           Some e \<Rightarrow> (Inl e, st')
         | None \<Rightarrow> (Inr (), st'))"

section \<open>Registration\<close>

text \<open>\<^verbatim>\<open>const id = uuid.v5(plugin.alias, uuid.v5.URL)\<close>.\<close>

definition plugin_identity :: "world \<Rightarrow> registration \<Rightarrow> string" where
  "plugin_identity w plugin = uuid_v5 w (reg_alias plugin) uuid_v5_URL"

text \<open>The configuration of the runner that is only asked for the manifest.\<close>

definition manifest_runner :: "world \<Rightarrow> registration \<Rightarrow> runner_config" where
  "manifest_runner w plugin =
     \<lparr>pluginId = plugin_identity w plugin, pluginPath = reg_path plugin,
      pluginConfig = JObj []\<rparr>"

definition defaultConfigLoader :: "registration \<Rightarrow> plugin_manifest \<Rightarrow> js_exn + json" where
  "defaultConfigLoader plugin manifest =
     (case reg_config plugin of
        ConfigFunction r \<Rightarrow>
          (case r of
             Inl e \<Rightarrow> Inl e
           | Inr c \<Rightarrow> Inr (if json_truthy c then c else JObj []))
      | ConfigValue c \<Rightarrow> Inr (if json_truthy c then c else JObj []))"

definition getManifest :: "registry \<Rightarrow> string \<Rightarrow> js_val" where
  "getManifest st a = manifests_get (manifests st) a"

text \<open>The conditional expression that computes \<^verbatim>\<open>config\<close> in \<^verbatim>\<open>registerPlugin\<close>.\<close>

definition resolve_config ::
  "world \<Rightarrow> registration \<Rightarrow> plugin_manifest \<Rightarrow> registry \<Rightarrow> js_exn + json"
where
  "resolve_config w plugin manifest st =
     (case configLoader w of
        Some loader \<Rightarrow>
          (case loader plugin manifest (getManifest st) of
             Inl e \<Rightarrow> Inl e
           | Inr c \<Rightarrow> if json_truthy c then Inr c else defaultConfigLoader plugin manifest)
      | None \<Rightarrow> defaultConfigLoader plugin manifest)"

definition join_lines :: "string list \<Rightarrow> string" where
  "join_lines ls = concat (case ls of [] \<Rightarrow> [] | l # rest \<Rightarrow> l # map (\<lambda>x. CHR 0x0A # x) rest)"

text \<open>
  The first \<^verbatim>\<open>try\<close> block of \<^verbatim>\<open>registerPlugin\<close>: read the \<^verbatim>\<open>config\<close> schema, parse the
  configuration with it and store the parsed value in the runner; whatever is thrown is
  wrapped.
\<close>

definition validate_config ::
  "world \<Rightarrow> plugin_runner \<Rightarrow> error_details \<Rightarrow> json \<Rightarrow> js_exn + plugin_runner"
where
  "validate_config w runner details config =
     (case (case runner_getSchema w (rn_config runner) ''config'' of
              Inl e \<Rightarrow> Inl e
            | Inr None \<Rightarrow> Inr runner
            | Inr (Some parse) \<Rightarrow>
                (case parse config of
                   Inl e \<Rightarrow> Inl e
                 | Inr parsed \<Rightarrow>
                     Inr (runner\<lparr>rn_config := (rn_config runner)\<lparr>pluginConfig := parsed\<rparr>\<rparr>)))
      of
        Inr r \<Rightarrow> Inr r
      | Inl e \<Rightarrow>
          (case e of
             ZodError issues \<Rightarrow>
               Inl (RegistryError
                      (''Invalid plugin config: '' @ [CHR 0x0A] @ join_lines issues) details e)
           | _ \<Rightarrow> Inl (RegistryError ''Failed to parse plugin config'' details e)))"

text \<open>
  The transaction of \<^verbatim>\<open>registerPlugin\<close>: look the state up by alias; when there is none,
  save a new document keyed by the identity and run \<^verbatim>\<open>bootstrap\<close>. The document is
  committed only when the callback returns.
\<close>

definition bootstrap_transaction ::
  "world \<Rightarrow> plugin_instance \<Rightarrow> loaded_plugin \<Rightarrow> registry \<Rightarrow> (js_exn + unit) \<times> registry"
where
  "bootstrap_transaction w inst loaded st =
     (case findOne (lp_alias loaded) (pluginState st) of
        Some state \<Rightarrow> (Inr (), st)
      | None \<Rightarrow>
          (case save \<lparr>doc_id = lp_id loaded, doc_manifest = lp_manifest loaded,
                      doc_alias = lp_alias loaded\<rparr> (pluginState st) of
             Inl e \<Rightarrow> (Inl e, st)
           | Inr docs \<Rightarrow>
               (case runTask w inst ''bootstrap'' st of
                  (Inl e, st') \<Rightarrow> (Inl e, st')
                | (Inr u, st') \<Rightarrow> (Inr (), st'\<lparr>pluginState := docs\<rparr>))))"

text \<open>The assignments at the end of \<^verbatim>\<open>registerPlugin\<close>.\<close>

definition index_plugin :: "loaded_plugin \<Rightarrow> registry \<Rightarrow> registry" where
  "index_plugin loaded st =
     (let a = lp_alias loaded; t = m_type (lp_manifest loaded);
          st1 = st\<lparr>plugins := obj_set (plugins st) a loaded\<rparr>
      in if t = ''provider'' then st1\<lparr>providers := obj_set (providers st1) a loaded\<rparr>
         else if t = ''file_parser''
           then st1\<lparr>fileParsers := obj_set (fileParsers st1) a loaded\<rparr>
         else if t = ''storage'' then st1\<lparr>storage := obj_set (storage st1) a loaded\<rparr>
         else if t = ''database'' then st1\<lparr>database := obj_set (database st1) a loaded\<rparr>
         else if t = ''text_vectorizer''
           then st1\<lparr>textVectorizers := obj_set (textVectorizers st1) a loaded\<rparr>
         else if t = ''image_vectorizer''
           then st1\<lparr>imageVectorizers := obj_set (imageVectorizers st1) a loaded\<rparr>
         else if t = ''multimodal_vectorizer''
           then st1\<lparr>multimodalVectorizers := obj_set (multimodalVectorizers st1) a loaded\<rparr>
         else if t = ''reranker'' then st1\<lparr>rerankers := obj_set (rerankers st1) a loaded\<rparr>
         else if t = ''generative''
           then st1\<lparr>generative := obj_set (generative st1) a loaded\<rparr>
         else if t = ''enhancer'' then st1\<lparr>enhancers := obj_set (enhancers st1) a loaded\<rparr>
         else st1)"

text \<open>\<^verbatim>\<open>const alias = plugin.alias || manifest.name\<close>.\<close>

definition effective_alias :: "registration \<Rightarrow> plugin_manifest \<Rightarrow> string" where
  "effective_alias plugin manifest =
     (if reg_alias plugin \<noteq> [] then reg_alias plugin else m_name manifest)"

text \<open>\<^verbatim>\<open>this._manifests[plugin.alias] = manifest\<close>.\<close>

definition cache_manifest :: "registration \<Rightarrow> plugin_manifest \<Rightarrow> registry \<Rightarrow> registry" where
  "cache_manifest plugin manifest st =
     st\<lparr>manifests := obj_set (manifests st) (reg_alias plugin) manifest\<rparr>"

text \<open>\<^verbatim>\<open>const loaded = {id, alias, runner, manifest}\<close>.\<close>

definition loaded_of ::
  "world \<Rightarrow> registration \<Rightarrow> plugin_manifest \<Rightarrow> plugin_runner \<Rightarrow> loaded_plugin"
where
  "loaded_of w plugin manifest runner =
     \<lparr>lp_id = plugin_identity w plugin, lp_alias = effective_alias plugin manifest,
      lp_runner = runner, lp_manifest = manifest\<rparr>"

definition registerPlugin ::
  "world \<Rightarrow> registration \<Rightarrow> registry \<Rightarrow> (js_exn + unit) \<times> registry"
where
  "registerPlugin w plugin st =
     (let pid = plugin_identity w plugin in
      case runner_getManifest w (manifest_runner w plugin) of
        Inl e \<Rightarrow> (Inl e, st)
      | Inr manifest \<Rightarrow>
          (let st1 = cache_manifest plugin manifest st in
           case resolve_config w plugin manifest st1 of
             Inl e \<Rightarrow> (Inl e, st1)
           | Inr config \<Rightarrow>
               (let runner = \<lparr>rn_config = \<lparr>pluginId = pid, pluginPath = reg_path plugin,
                                            pluginConfig = config\<rparr>\<rparr> in
                case runner_load w (rn_config runner) of
                  Some e \<Rightarrow> (Inl e, st1)
                | None \<Rightarrow>
                    (let a = effective_alias plugin manifest;
                         details = \<lparr>d_alias = a, d_path = reg_path plugin,
                                    d_manifest = VManifest manifest\<rparr> in
                     case validate_config w runner details config of
                       Inl e \<Rightarrow> (Inl e, st1)
                     | Inr runner' \<Rightarrow>
                         (case runner_initialize w (rn_config runner') of
                            Some e \<Rightarrow>
                              (Inl (RegistryError
                                      (''Failed to initialize plugin '' @ [CHR 0x27]
                                         @ m_name manifest @ [CHR 0x27])
                                      details e), st1)
                          | None \<Rightarrow>
                              (let loaded = loaded_of w plugin manifest runner' in
                               case getInstance (VPlugin loaded) of
                                 Inl e \<Rightarrow> (Inl e, st1)
                               | Inr inst \<Rightarrow>
                                   (case bootstrap_transaction w inst loaded st1 of
                                      (Inl e, st2) \<Rightarrow> (Inl e, st2)
                                    | (Inr u, st2) \<Rightarrow> (Inr (), index_plugin loaded st2))))))))"

text \<open>The two loops of \<^verbatim>\<open>register\<close>.\<close>

fun manifest_phase ::
  "world \<Rightarrow> registration list \<Rightarrow> js_exn list \<Rightarrow> registry \<Rightarrow> js_exn list \<times> registry"
where
  "manifest_phase w [] errors st = (errors, st)"
| "manifest_phase w (plugin # rest) errors st =
     (case runner_getManifest w (manifest_runner w plugin) of
        Inr manifest \<Rightarrow> manifest_phase w rest errors (cache_manifest plugin manifest st)
      | Inl e \<Rightarrow>
          manifest_phase w rest (if is_registry_error e then errors @ [e] else errors) st)"

fun registration_phase ::
  "world \<Rightarrow> registration list \<Rightarrow> js_exn list \<Rightarrow> registry \<Rightarrow> js_exn list \<times> registry"
where
  "registration_phase w [] errors st = (errors, st)"
| "registration_phase w (plugin # rest) errors st =
     (case registerPlugin w plugin st of
        (Inr u, st') \<Rightarrow> registration_phase w rest errors st'
      | (Inl error, st') \<Rightarrow>
          registration_phase w rest
            (errors @
               [if is_registry_error error then error
                else RegistryError ''Failed to register plugin''
                       \<lparr>d_alias = reg_alias plugin, d_path = reg_path plugin,
                        d_manifest =
                          (let m = manifests_get (manifests st') (reg_alias plugin)
                           in if truthy m then m else VUndefined)\<rparr>
                       error])
            st')"

definition register :: "world \<Rightarrow> registration list \<Rightarrow> registry \<Rightarrow> js_exn list \<times> registry"
where
  "register w ps st =
     (case manifest_phase w ps [] st of
        (errors, st1) \<Rightarrow> registration_phase w ps errors st1)"

section \<open>Deletion, lookup and services\<close>

text \<open>
  \<^verbatim>\<open>deletePlugin\<close>. The transaction that deletes the state document is started but not
  awaited: on return the deletion is pending.
\<close>

definition deletePlugin :: "world \<Rightarrow> string \<Rightarrow> registry \<Rightarrow> (js_exn + unit) \<times> registry" where
  "deletePlugin w a st =
     (let plugin = plugins_get (plugins st) a in
      if \<not> truthy plugin then (Inr (), st)
      else
        (case getInstance plugin of
           Inl e \<Rightarrow> (Inl e, st)
         | Inr inst \<Rightarrow>
             (case runTask w inst ''destroy'' st of
                (Inl e, st1) \<Rightarrow> (Inl e, st1)
              | (Inr u, st1) \<Rightarrow>
                  (Inr (), st1\<lparr>pendingDeletes := pendingDeletes st1 @ [a],
                               plugins := obj_delete (plugins st1) a\<rparr>))))"

definition getProvider :: "registry \<Rightarrow> string \<Rightarrow> js_val" where
  "getProvider st a = plugins_get (providers st) a"

definition is_service :: "loaded_plugin \<Rightarrow> bool" where
  "is_service plugin = (m_runtime (lp_manifest plugin) = Some ''service'')"

definition service_details :: "loaded_plugin \<Rightarrow> error_details" where
  "service_details plugin =
     \<lparr>d_alias = lp_alias plugin, d_path = pluginPath (rn_config (lp_runner plugin)),
      d_manifest = VManifest (lp_manifest plugin)\<rparr>"

fun start_loop :: "world \<Rightarrow> loaded_plugin list \<Rightarrow> registry \<Rightarrow> (js_exn + unit) \<times> registry" where
  "start_loop w [] st = (Inr (), st)"
| "start_loop w (plugin # rest) st =
     (case (if is_service plugin
            then (case getInstance (VPlugin plugin) of
                    Inl e \<Rightarrow> (Inl e, st)
                  | Inr inst \<Rightarrow> runTask w inst ''startService'' st)
            else (Inr (), st))
      of
        (Inl error, st') \<Rightarrow>
          (Inl (RegistryError ''Failed to start plugin service'' (service_details plugin) error),
           st')
      | (Inr u, st') \<Rightarrow> start_loop w rest st')"

definition startServices :: "world \<Rightarrow> registry \<Rightarrow> (js_exn + unit) \<times> registry" where
  "startServices w st = start_loop w (obj_values (plugins st)) st"

fun stop_loop :: "world \<Rightarrow> loaded_plugin list \<Rightarrow> registry \<Rightarrow> (js_exn + unit) \<times> registry" where
  "stop_loop w [] st = (Inr (), st)"
| "stop_loop w (plugin # rest) st =
     (case (if is_service plugin
            then (case getInstance (VPlugin plugin) of
                    Inl e \<Rightarrow> (Inl e, st)
                  | Inr inst \<Rightarrow> runTask w inst ''stopService'' st)
            else (Inr (), st))
      of
        (Inl error, st') \<Rightarrow> stop_loop w rest (st'\<lparr>trace := trace st' @ [ConsoleError error]\<rparr>)
      | (Inr u, st') \<Rightarrow> stop_loop w rest st')"

definition stopServices :: "world \<Rightarrow> registry \<Rightarrow> (js_exn + unit) \<times> registry" where
  "stopServices w st = stop_loop w (obj_values (plugins st)) st"


section \<open>Notions used to state the properties\<close>

text \<open>
  What stopping one service plugin leaves in the trace: the invocation of \<^verbatim>\<open>stopService\<close>,
  followed by \<^verbatim>\<open>console.error\<close> of what it threw, if it threw.
\<close>

definition stop_events :: "world \<Rightarrow> loaded_plugin \<Rightarrow> event list" where
  "stop_events w p =
     RunTask p ''stopService'' #
       (case runner_runTask w p ''stopService'' of Some e \<Rightarrow> [ConsoleError e] | None \<Rightarrow> [])"

text \<open>Agreement of two states on every table that holds loaded plugins.\<close>

definition same_tables :: "registry \<Rightarrow> registry \<Rightarrow> bool" where
  "same_tables st st' =
     (plugins st' = plugins st \<and> providers st' = providers st
      \<and> fileParsers st' = fileParsers st \<and> storage st' = storage st
      \<and> database st' = database st \<and> enhancers st' = enhancers st
      \<and> generative st' = generative st \<and> rerankers st' = rerankers st
      \<and> textVectorizers st' = textVectorizers st
      \<and> imageVectorizers st' = imageVectorizers st
      \<and> multimodalVectorizers st' = multimodalVectorizers st)"

text \<open>
  Every declaration of a list registers successfully, one after the other; the result is
  the state reached.
\<close>

fun registers_all :: "world \<Rightarrow> registration list \<Rightarrow> registry \<Rightarrow> registry option" where
  "registers_all w [] st = Some st"
| "registers_all w (plugin # rest) st =
     (case registerPlugin w plugin st of
        (Inr u, st') \<Rightarrow> registers_all w rest st'
      | (Inl e, st') \<Rightarrow> None)"

text \<open>
  An alias is registered when the flat table yields, for it, a loaded plugin that carries
  it; a declaration is registered when the alias it registers under is.
\<close>

definition registered :: "registry \<Rightarrow> string \<Rightarrow> bool" where
  "registered st a =
     (case plugins_get (plugins st) a of VPlugin l \<Rightarrow> lp_alias l = a | _ \<Rightarrow> False)"

definition declaration_registered :: "world \<Rightarrow> registry \<Rightarrow> registration \<Rightarrow> bool" where
  "declaration_registered w st plugin =
     (case runner_getManifest w (manifest_runner w plugin) of
        Inr manifest \<Rightarrow> registered st (effective_alias plugin manifest)
      | Inl e \<Rightarrow> False)"

section \<open>An example world\<close>

text \<open>
  A world with a handful of plugins, told apart by their paths. The identities are the
  values of \<^verbatim>\<open>uuid.v5(alias, uuid.v5.URL)\<close> for the aliases used below.
\<close>

definition demo_uuid_v5 :: "string \<Rightarrow> string \<Rightarrow> string" where
  "demo_uuid_v5 n ns =
     (if n = [] then ''1b4db7eb-4057-5ddf-91e0-36dec72071f5''
      else if n = ''foo'' then ''7da78284-2f14-5e7f-95e1-baaa9027c26f''
      else if n = ''a'' then ''e1407479-3136-56c0-9908-bb02fb0339e2''
      else if n = ''b'' then ''3c480084-0bec-5ee3-a530-e96a1170273a''
      else if n = ''c'' then ''71039e6c-de90-565a-8cd7-89b263271615''
      else if n = ''d'' then ''ff5c8641-fc7d-57a1-8d99-e15308e88ca1''
      else if n = ''1'' then ''b80c8fef-a677-5340-85fb-2c162d75df03''
      else if n = ''2'' then ''334b6b31-12a2-5bfc-bf4f-870c0954b343''
      else if n = ''__proto__'' then ''0c4e34fd-8552-51a0-ac2b-c3b6b038fe8c''
      else if n = ''fragile'' then ''12c9f42b-a25d-530b-821c-4a90efb1e7a9''
      else if n = ''cohere'' then ''08675cb0-7b6b-582d-9493-bf4ab62a3bba''
      else if n = ''broken'' then ''d79141f2-5e8d-534c-82df-246f54308670''
      else ''uuid5:'' @ n)"

definition mk_manifest :: "string \<Rightarrow> string \<Rightarrow> string option \<Rightarrow> plugin_manifest" where
  "mk_manifest n t r =
     \<lparr>m_name = n, m_displayName = n, m_description = None, m_version = ''1.0.0'',
      m_type = t, m_runtime = r\<rparr>"

definition demo_getManifest :: "runner_config \<Rightarrow> js_exn + plugin_manifest" where
  "demo_getManifest c =
     (if pluginPath c = ''plugins/foo'' then Inr (mk_manifest ''foo'' ''enhancer'' None)
      else if pluginPath c = ''plugins/cohere''
        then Inr (mk_manifest ''cohere'' ''reranker'' None)
      else if pluginPath c = ''plugins/github''
        then Inr (mk_manifest ''github'' ''provider'' None)
      else if pluginPath c = ''plugins/fragile''
        then Inr (mk_manifest ''fragile'' ''provider'' None)
      else if pluginPath c = ''plugins/queue''
        then Inr (mk_manifest ''queue'' ''database'' (Some ''service''))
      else if pluginPath c = ''plugins/cron''
        then Inr (mk_manifest ''cron'' ''enhancer'' (Some ''service''))
      else if pluginPath c = ''plugins/watcher''
        then Inr (mk_manifest ''watcher'' ''provider'' (Some ''service''))
      else Inl (Thrown ''ManifestError''))"

text \<open>
  The tasks of the plugin named \<^verbatim>\<open>fragile\<close> throw, and so do \<^verbatim>\<open>startService\<close> and
  \<^verbatim>\<open>stopService\<close> of the plugin named \<^verbatim>\<open>cron\<close>.
\<close>

definition demo_runTask :: "loaded_plugin \<Rightarrow> string \<Rightarrow> js_exn option" where
  "demo_runTask p task =
     (if m_name (lp_manifest p) = ''fragile'' then Some (Thrown ''boom'')
      else if m_name (lp_manifest p) = ''cron''
              \<and> (task = ''startService'' \<or> task = ''stopService'')
        then Some (Thrown ''boom'')
      else None)"

definition demo_world :: world where
  "demo_world =
     \<lparr>uuid_v5 = demo_uuid_v5, configLoader = None, runner_getManifest = demo_getManifest,
      runner_load = (\<lambda>c. None), runner_getSchema = (\<lambda>c k. Inr None),
      runner_initialize = (\<lambda>c. None), runner_runTask = demo_runTask\<rparr>"

definition demo_plugin :: "string \<Rightarrow> string \<Rightarrow> string \<Rightarrow> string option \<Rightarrow> loaded_plugin" where
  "demo_plugin a n t r =
     \<lparr>lp_id = demo_uuid_v5 a uuid_v5_URL, lp_alias = a,
      lp_runner = \<lparr>rn_config = \<lparr>pluginId = demo_uuid_v5 a uuid_v5_URL,
                                 pluginPath = ''plugins/'' @ n, pluginConfig = JObj []\<rparr>\<rparr>,
      lp_manifest = mk_manifest n t r\<rparr>"

text \<open>Three service plugins and one plugin without a runtime, in the order of registration.\<close>

definition svc_a :: loaded_plugin where
  "svc_a = demo_plugin ''a'' ''queue'' ''database'' (Some ''service'')"

definition svc_b :: loaded_plugin where
  "svc_b = demo_plugin ''b'' ''cron'' ''enhancer'' (Some ''service'')"

definition svc_c :: loaded_plugin where
  "svc_c = demo_plugin ''c'' ''watcher'' ''provider'' (Some ''service'')"

definition plain_d :: loaded_plugin where
  "plain_d = demo_plugin ''d'' ''cohere'' ''reranker'' None"

definition services_registry :: registry where
  "services_registry =
     index_plugin svc_c (index_plugin svc_b (index_plugin plain_d
       (index_plugin svc_a (new_registry []))))"


text \<open>A registry that holds the provider \<^verbatim>\<open>fragile\<close>, bootstrapped earlier.\<close>

definition fragile_plugin :: loaded_plugin where
  "fragile_plugin = demo_plugin ''fragile'' ''fragile'' ''provider'' None"

definition fragile_registry :: registry where
  "fragile_registry =
     index_plugin fragile_plugin
       (new_registry [\<lparr>doc_id = lp_id fragile_plugin, doc_manifest = lp_manifest fragile_plugin,
                       doc_alias = ''fragile''\<rparr>])"

text \<open>
  Declarations: the plugin \<^verbatim>\<open>foo\<close> under its own name and without an alias, the plugin
  \<^verbatim>\<open>fragile\<close>, and the registry after the alias-less registration of \<^verbatim>\<open>foo\<close>.
\<close>

definition named_foo :: registration where
  "named_foo = \<lparr>reg_alias = ''foo'', reg_path = ''plugins/foo'',
                 reg_config = ConfigValue JUndefined\<rparr>"

definition anonymous_foo :: registration where
  "anonymous_foo = \<lparr>reg_alias = [], reg_path = ''plugins/foo'',
                     reg_config = ConfigValue JUndefined\<rparr>"

definition fragile_declaration :: registration where
  "fragile_declaration = \<lparr>reg_alias = ''fragile'', reg_path = ''plugins/fragile'',
                           reg_config = ConfigValue JUndefined\<rparr>"

definition after_anonymous_foo :: registry where
  "after_anonymous_foo = snd (registerPlugin demo_world anonymous_foo (new_registry []))"

definition after_named_foo :: registry where
  "after_named_foo = snd (registerPlugin demo_world named_foo (new_registry []))"

text \<open>
  Another declaration with the alias \<^verbatim>\<open>foo\<close>, for another module and with another
  configuration; a declaration whose module yields no manifest; a batch of three.
\<close>

definition other_foo :: registration where
  "other_foo = \<lparr>reg_alias = ''foo'', reg_path = ''plugins/github'',
                 reg_config = ConfigValue (JObj [(''token'', JStr ''secret'')])\<rparr>"

definition broken_declaration :: registration where
  "broken_declaration = \<lparr>reg_alias = ''broken'', reg_path = ''plugins/missing'',
                          reg_config = ConfigValue JUndefined\<rparr>"

definition cohere_declaration :: registration where
  "cohere_declaration = \<lparr>reg_alias = ''cohere'', reg_path = ''plugins/cohere'',
                          reg_config = ConfigValue JUndefined\<rparr>"

definition demo_batch :: "registration list" where
  "demo_batch = [named_foo, broken_declaration, cohere_declaration]"

definition after_other_foo :: registry where
  "after_other_foo = snd (registerPlugin demo_world other_foo fragile_registry)"

text \<open>The states that the batch goes through.\<close>

definition batch_after_manifests :: registry where
  "batch_after_manifests = snd (manifest_phase demo_world demo_batch [] (new_registry []))"

definition batch_after_foo :: registry where
  "batch_after_foo = snd (registerPlugin demo_world named_foo batch_after_manifests)"

definition batch_after_cohere :: registry where
  "batch_after_cohere = snd (registerPlugin demo_world cohere_declaration batch_after_foo)"

text \<open>
  Two service plugins declared under the aliases \<^verbatim>\<open>2\<close> and \<^verbatim>\<open>1\<close>, in this order, the first
  being the one whose \<^verbatim>\<open>startService\<close> throws; and a service plugin declared under the
  alias \<^verbatim>\<open>__proto__\<close>. The registries are those that \<^verbatim>\<open>register\<close> leaves.
\<close>

definition service_two :: registration where
  "service_two = \<lparr>reg_alias = ''2'', reg_path = ''plugins/cron'',
                   reg_config = ConfigValue JUndefined\<rparr>"

definition service_one :: registration where
  "service_one = \<lparr>reg_alias = ''1'', reg_path = ''plugins/queue'',
                   reg_config = ConfigValue JUndefined\<rparr>"

definition proto_service :: registration where
  "proto_service = \<lparr>reg_alias = ''__proto__'', reg_path = ''plugins/watcher'',
                     reg_config = ConfigValue JUndefined\<rparr>"

definition plugin_two :: loaded_plugin where
  "plugin_two = demo_plugin ''2'' ''cron'' ''enhancer'' (Some ''service'')"

definition plugin_one :: loaded_plugin where
  "plugin_one = demo_plugin ''1'' ''queue'' ''database'' (Some ''service'')"

definition plugin_proto :: loaded_plugin where
  "plugin_proto = demo_plugin ''__proto__'' ''watcher'' ''provider'' (Some ''service'')"

definition numbered_registry :: registry where
  "numbered_registry = snd (register demo_world [service_two, service_one] (new_registry []))"

definition proto_registry :: registry where
  "proto_registry = snd (register demo_world [proto_service] (new_registry []))"

section \<open>Basic facts\<close>

lemma runTask_result:
  "runTask w inst task st =
     (case runner_runTask w (inst_plugin inst) task of Some e \<Rightarrow> Inl e | None \<Rightarrow> Inr (),
      st\<lparr>trace := trace st @ [RunTask (inst_plugin inst) task]\<rparr>)"
  by (simp add: runTask_def Let_def split: option.splits)

lemma inst_plugin_new_instance [simp]: "inst_plugin (new_instance p) = p"
  by (simp add: new_instance_def)

lemma index_plugin_frame:
  "trace (index_plugin loaded st) = trace st"
  "pluginState (index_plugin loaded st) = pluginState st"
  "pendingDeletes (index_plugin loaded st) = pendingDeletes st"
  "manifests (index_plugin loaded st) = manifests st"
  "plugins (index_plugin loaded st) = obj_set (plugins st) (lp_alias loaded) loaded"
  by (simp_all add: index_plugin_def Let_def)

lemma services_registry_values:
  "obj_values (plugins services_registry) = [svc_a, plain_d, svc_b, svc_c]"
  by (simp add: services_registry_def index_plugin_def Let_def new_registry_def
      empty_object_def obj_set_def obj_values_def svc_a_def svc_b_def svc_c_def plain_d_def
      demo_plugin_def mk_manifest_def is_array_index_def is_digit_def)

lemma services_registry_services:
  "filter is_service (obj_values (plugins services_registry)) = [svc_a, svc_b, svc_c]"
  by (simp add: services_registry_values)
     (simp add: is_service_def svc_a_def svc_b_def svc_c_def plain_d_def demo_plugin_def
        mk_manifest_def)

lemma services_registry_trace: "trace services_registry = []"
  by (simp add: services_registry_def index_plugin_frame new_registry_def)

lemma demo_services_outcomes:
  "runner_runTask demo_world svc_a task = None"
  "runner_runTask demo_world svc_b ''startService'' = Some (Thrown ''boom'')"
  "runner_runTask demo_world svc_b ''stopService'' = Some (Thrown ''boom'')"
  "runner_runTask demo_world svc_c task = None"
  by (simp_all add: demo_world_def demo_runTask_def svc_a_def svc_b_def svc_c_def
      demo_plugin_def mk_manifest_def)

section \<open>Starting and stopping services\<close>

lemma stop_loop_result:
  "stop_loop w ps st =
     (Inr (), st\<lparr>trace := trace st @ concat (map (stop_events w) (filter is_service ps))\<rparr>)"
proof (induction ps arbitrary: st)
  case Nil
  show ?case by simp
next
  case (Cons p ps)
  show ?case
  proof (cases "is_service p")
    case False
    then show ?thesis by (simp add: Cons.IH)
  next
    case True
    then show ?thesis
      by (cases "runner_runTask w p ''stopService''")
         (simp_all add: Cons.IH runTask_result stop_events_def)
  qed
qed

text \<open>
  What \<^verbatim>\<open>stopServices()\<close> does for any table: it never throws, and it invokes \<^verbatim>\<open>stopService\<close>
  on every plugin that \<^verbatim>\<open>Object.values\<close> enumerates and whose manifest declares the runtime
  \<^verbatim>\<open>service\<close>, in the order of the enumeration, whatever the invocations before it did:
  what an invocation throws is passed to \<^verbatim>\<open>console.error\<close> and the loop goes on. Nothing
  but the trace changes.
\<close>

lemma stopServices_best_effort:
  "fst (stopServices w st) = Inr ()
   \<and> snd (stopServices w st) =
       st\<lparr>trace := trace st @
            concat (map (stop_events w) (filter is_service (obj_values (plugins st))))\<rparr>
   \<and> filter (\<lambda>ev. case ev of RunTask p t \<Rightarrow> True | ConsoleError e \<Rightarrow> False)
        (concat (map (stop_events w) (filter is_service (obj_values (plugins st)))))
      = map (\<lambda>p. RunTask p ''stopService'') (filter is_service (obj_values (plugins st)))"
proof -
  have "filter (\<lambda>ev. case ev of RunTask p t \<Rightarrow> True | ConsoleError e \<Rightarrow> False)
          (concat (map (stop_events w) ps)) = map (\<lambda>p. RunTask p ''stopService'') ps" for ps
    by (induction ps) (simp_all add: stop_events_def split: option.splits)
  then show ?thesis
    by (simp add: stopServices_def stop_loop_result)
qed

lemma start_loop_fail_fast:
  assumes "filter is_service ps = pre @ p # post"
    and "list_all (\<lambda>q. runner_runTask w q ''startService'' = None) pre"
    and "runner_runTask w p ''startService'' = Some e"
  shows "start_loop w ps st =
           (Inl (RegistryError ''Failed to start plugin service'' (service_details p) e),
            st\<lparr>trace := trace st @ map (\<lambda>q. RunTask q ''startService'') (pre @ [p])\<rparr>)"
  using assms
proof (induction ps arbitrary: st pre)
  case Nil
  then show ?case by simp
next
  case (Cons q ps)
  show ?case
  proof (cases "is_service q")
    case False
    with Cons.prems have "filter is_service ps = pre @ p # post" by simp
    from Cons.IH [OF this Cons.prems(2,3)] False show ?thesis by simp
  next
    case True
    show ?thesis
    proof (cases pre)
      case Nil
      with True Cons.prems have "q = p" by simp
      with True Nil Cons.prems(3) show ?thesis by (simp add: runTask_result)
    next
      case (Cons q' pre')
      with True Cons.prems(1) have q: "q' = q" and rest: "filter is_service ps = pre' @ p # post"
        by simp_all
      from Cons.prems(2) \<open>pre = q' # pre'\<close> q
      have ok: "runner_runTask w q ''startService'' = None"
        and pre': "list_all (\<lambda>q. runner_runTask w q ''startService'' = None) pre'"
        by simp_all
      from Cons.IH [OF rest pre' Cons.prems(3)] True ok \<open>pre = q' # pre'\<close> q
      show ?thesis by (simp add: runTask_result)
    qed
  qed
qed

lemma start_loop_all_started:
  assumes "list_all (\<lambda>p. runner_runTask w p ''startService'' = None) (filter is_service ps)"
  shows "start_loop w ps st =
           (Inr (), st\<lparr>trace := trace st @
                        map (\<lambda>p. RunTask p ''startService'') (filter is_service ps)\<rparr>)"
  using assms
proof (induction ps arbitrary: st)
  case Nil
  show ?case by simp
next
  case (Cons p ps)
  then show ?case by (cases "is_service p") (simp_all add: runTask_result)
qed

text \<open>
  What \<^verbatim>\<open>startServices()\<close> does for any table. Let the service plugins be the plugins that
  \<^verbatim>\<open>Object.values\<close> enumerates and whose manifest declares the runtime \<^verbatim>\<open>service\<close>, in the
  order of the enumeration. If \<^verbatim>\<open>startService\<close> of the \<open>k\<close>-th of them throws, those before
  it having started, then \<^verbatim>\<open>startServices()\<close> throws a \<^verbatim>\<open>PluginRegistry.Error\<close> whose details
  carry the alias, path and manifest of that plugin and whose cause is what was thrown;
  \<^verbatim>\<open>startService\<close> has been invoked on the service plugins up to and including the
  \<open>k\<close>-th, and on no other plugin. If none throws, it has been invoked on all of them and
  on no other plugin.
\<close>

lemma startServices_fail_fast:
  assumes k: "k < length (filter is_service (obj_values (plugins st)))"
    and before: "\<forall>j<k. runner_runTask w (filter is_service (obj_values (plugins st)) ! j)
                   ''startService'' = None"
    and fails: "runner_runTask w (filter is_service (obj_values (plugins st)) ! k)
                   ''startService'' = Some e"
  shows "startServices w st =
           (Inl (RegistryError ''Failed to start plugin service''
                   (service_details (filter is_service (obj_values (plugins st)) ! k)) e),
            st\<lparr>trace := trace st @
                 map (\<lambda>p. RunTask p ''startService'')
                   (take (Suc k) (filter is_service (obj_values (plugins st))))\<rparr>)"
proof -
  let ?svcs = "filter is_service (obj_values (plugins st))"
  have split: "?svcs = take k ?svcs @ ?svcs ! k # drop (Suc k) ?svcs"
    using k by (rule id_take_nth_drop)
  have pre: "list_all (\<lambda>q. runner_runTask w q ''startService'' = None) (take k ?svcs)"
    using before k by (auto simp: list_all_iff in_set_conv_nth)
  have "take (Suc k) ?svcs = take k ?svcs @ [?svcs ! k]"
    using k by (rule take_Suc_conv_app_nth)
  with start_loop_fail_fast [OF split pre fails, of st]
  show ?thesis by (simp add: startServices_def)
qed

lemma startServices_all_started:
  assumes "list_all (\<lambda>p. runner_runTask w p ''startService'' = None)
             (filter is_service (obj_values (plugins st)))"
  shows "startServices w st =
           (Inr (), st\<lparr>trace := trace st @
                        map (\<lambda>p. RunTask p ''startService'')
                          (filter is_service (obj_values (plugins st)))\<rparr>)"
  using assms by (simp add: startServices_def start_loop_all_started)

text \<open>
  Of the three service plugins \<open>a\<close>, \<open>b\<close>, \<open>c\<close> the second throws: the error names \<open>b\<close>,
  and \<open>c\<close> is not started, nor is the plugin \<open>d\<close>, which is no service.
\<close>

lemma startServices_fail_fast_example:
  "filter is_service (obj_values (plugins services_registry)) = [svc_a, svc_b, svc_c]
   \<and> runner_runTask demo_world svc_a ''startService'' = None
   \<and> runner_runTask demo_world svc_b ''startService'' = Some (Thrown ''boom'')
   \<and> startServices demo_world services_registry =
       (Inl (RegistryError ''Failed to start plugin service'' (service_details svc_b)
               (Thrown ''boom'')),
        services_registry
          \<lparr>trace := [RunTask svc_a ''startService'', RunTask svc_b ''startService'']\<rparr>)
   \<and> d_alias (service_details svc_b) = ''b''"
proof -
  let ?svcs = "filter is_service (obj_values (plugins services_registry))"
  have k: "1 < length ?svcs"
    by (simp add: services_registry_services)
  have before: "\<forall>j<1. runner_runTask demo_world (?svcs ! j) ''startService'' = None"
    by (simp add: services_registry_services demo_services_outcomes)
  have fails: "runner_runTask demo_world (?svcs ! 1) ''startService'' = Some (Thrown ''boom'')"
    by (simp add: services_registry_services demo_services_outcomes)
  have names: "d_alias (service_details svc_b) = ''b''"
    by (simp add: service_details_def svc_b_def demo_plugin_def)
  from startServices_fail_fast [OF k before fails] names show ?thesis
    by (simp add: services_registry_services services_registry_trace demo_services_outcomes)
qed

section \<open>Deleting a plugin\<close>

lemma deletePlugin_unknown:
  assumes "plugins_get (plugins st) a = VUndefined"
  shows "deletePlugin w a st = (Inr (), st)"
  using assms by (simp add: deletePlugin_def)

lemma deletePlugin_registered:
  assumes "plugins_get (plugins st) a = VPlugin p"
    and "runner_runTask w p ''destroy'' = None"
  shows "deletePlugin w a st =
           (Inr (), st\<lparr>trace := trace st @ [RunTask p ''destroy''],
                       pendingDeletes := pendingDeletes st @ [a],
                       plugins := obj_delete (plugins st) a\<rparr>)"
  using assms by (simp add: deletePlugin_def runTask_result)

text \<open>
  Deletion never touches a capability table, so the provider table still yields a deleted
  provider. The state document goes once the pending deletion has run.
\<close>

lemma deletePlugin_keeps_provider:
  "getProvider (snd (deletePlugin w a st)) b = getProvider st b"
proof (cases "truthy (plugins_get (plugins st) a)")
  case False
  then show ?thesis by (simp add: deletePlugin_def)
next
  case True
  show ?thesis
  proof (cases "getInstance (plugins_get (plugins st) a)")
    case (Inl e)
    with True show ?thesis by (simp add: deletePlugin_def)
  next
    case (Inr inst)
    with True show ?thesis
      by (cases "runner_runTask w (inst_plugin inst) ''destroy''")
         (simp_all add: deletePlugin_def runTask_result getProvider_def)
  qed
qed

lemma settle_after_deletePlugin:
  assumes "plugins_get (plugins st) a = VPlugin p"
    and "runner_runTask w p ''destroy'' = None"
    and "pendingDeletes st = []"
  shows "pluginState (settle (snd (deletePlugin w a st))) = deleteOne a (pluginState st)"
  using assms by (simp add: deletePlugin_registered settle_def)


lemma deleteOne_removes:
  assumes "length (filter (\<lambda>d. doc_alias d = a) docs) \<le> 1"
  shows "findOne a (deleteOne a docs) = None"
  using assms
proof (induction docs)
  case Nil
  show ?case by (simp add: findOne_def)
next
  case (Cons d docs)
  show ?case
  proof (cases "doc_alias d = a")
    case True
    with Cons.prems have "filter (\<lambda>d. doc_alias d = a) docs = []" by simp
    then have "find (\<lambda>d. doc_alias d = a) docs = None"
      by (simp add: find_None_iff filter_empty_conv)
    with True show ?thesis by (simp add: findOne_def)
  next
    case False
    with Cons show ?thesis by (simp add: findOne_def)
  qed
qed

text \<open>
  C10. If the alias is registered and the \<^verbatim>\<open>destroy\<close> task of its plugin throws, then
  \<^verbatim>\<open>deletePlugin(alias)\<close> throws the same value and the registry is as before, up to the
  record of the invocation: the flat table, the capability tables, the state documents
  and the pending deletions are untouched.
\<close>

theorem deletePlugin_destroy_throws:
  assumes "plugins_get (plugins st) a = VPlugin p"
    and "runner_runTask w p ''destroy'' = Some e"
  shows "deletePlugin w a st = (Inl e, st\<lparr>trace := trace st @ [RunTask p ''destroy'']\<rparr>)"
  using assms by (simp add: deletePlugin_def runTask_result)

lemma fragile_registry_lookup:
  "plugins_get (plugins fragile_registry) ''fragile'' = VPlugin fragile_plugin"
  "plugins_get (providers fragile_registry) ''fragile'' = VPlugin fragile_plugin"
  by (simp_all add: fragile_registry_def index_plugin_def Let_def new_registry_def
      empty_object_def obj_set_def plugins_get_def obj_get_def fragile_plugin_def
      demo_plugin_def mk_manifest_def is_array_index_def is_digit_def)

lemma fragile_outcome: "runner_runTask demo_world fragile_plugin task = Some (Thrown ''boom'')"
  by (simp add: demo_world_def demo_runTask_def fragile_plugin_def demo_plugin_def
      mk_manifest_def)

text \<open>The provider \<^verbatim>\<open>fragile\<close>, whose \<^verbatim>\<open>destroy\<close> throws.\<close>

theorem deletePlugin_destroy_throws_witness:
  "plugins_get (plugins fragile_registry) ''fragile'' = VPlugin fragile_plugin
   \<and> runner_runTask demo_world fragile_plugin ''destroy'' = Some (Thrown ''boom'')
   \<and> deletePlugin demo_world ''fragile'' fragile_registry =
       (Inl (Thrown ''boom''),
        fragile_registry\<lparr>trace := trace fragile_registry @ [RunTask fragile_plugin ''destroy'']\<rparr>)"
  using deletePlugin_destroy_throws [OF fragile_registry_lookup(1) fragile_outcome]
  by (simp add: fragile_registry_lookup fragile_outcome)

text \<open>
  C8. The alias \<^verbatim>\<open>constructor\<close> is in no table of a new registry, yet
  \<^verbatim>\<open>this.plugins['constructor']\<close> is the member that every object inherits from
  \<^verbatim>\<open>Object.prototype\<close>. It passes the guard \<^verbatim>\<open>if (!plugin) return\<close>, and \<^verbatim>\<open>getInstance\<close>
  throws a \<^verbatim>\<open>TypeError\<close> on it: \<^verbatim>\<open>deletePlugin('constructor')\<close> invokes no task and changes
  nothing, but it throws instead of returning.
\<close>

theorem deletePlugin_inherited_name:
  "map_of (own_props (plugins (new_registry docs))) ''constructor'' = None
   \<and> plugins_get (plugins (new_registry docs)) ''constructor'' = VBuiltin ''constructor''
   \<and> deletePlugin w ''constructor'' (new_registry docs)
       = (Inl (TypeError ''type''), new_registry docs)"
  by (simp add: deletePlugin_def new_registry_def plugins_get_def obj_get_def empty_object_def
      object_prototype_names_def)

section \<open>Lookup\<close>

lemma getProvider_absent:
  assumes "map_of (own_props (providers st)) a = None"
    and "proto_obj (providers st) = None"
    and "a \<notin> set object_prototype_names"
  shows "getProvider st a = VUndefined"
proof -
  from assms(3) have "a \<noteq> ''__proto__''"
    by (auto simp: object_prototype_names_def)
  with assms show ?thesis
    by (simp add: getProvider_def plugins_get_def obj_get_def)
qed

text \<open>
  C9. On a new registry, whose provider table has no entry at all,
  \<^verbatim>\<open>getProvider('constructor')\<close> is not \<^verbatim>\<open>undefined\<close> but the inherited member of
  \<^verbatim>\<open>Object.prototype\<close>, a truthy value; \<^verbatim>\<open>getProvider('nonexistent')\<close> is \<^verbatim>\<open>undefined\<close>.
\<close>

theorem getProvider_inherited_name:
  "map_of (own_props (providers (new_registry docs))) ''constructor'' = None
   \<and> getProvider (new_registry docs) ''constructor'' = VBuiltin ''constructor''
   \<and> truthy (getProvider (new_registry docs) ''constructor'')
   \<and> getProvider (new_registry docs) ''nonexistent'' = VUndefined"
  by (simp add: getProvider_def new_registry_def plugins_get_def obj_get_def empty_object_def
      object_prototype_names_def)

section \<open>Instances\<close>

text \<open>
  C5. The instance that \<^verbatim>\<open>getInstance\<close> constructs for a plugin whose manifest declares the
  type \<^verbatim>\<open>reranker\<close> is a \<^verbatim>\<open>RerankerPluginInstance\<close> around that plugin. It exposes \<^verbatim>\<open>rerank\<close>
  and the generic \<^verbatim>\<open>runTask\<close>; besides these and the \<^verbatim>\<open>type\<close> getter it exposes nothing, so
  none of the methods of a provider or of a generative plugin.
\<close>

theorem reranker_instance_surface:
  assumes "m_type (lp_manifest p) = ''reranker''"
  shows "\<exists>inst ms. getInstance (VPlugin p) = Inr inst
           \<and> inst_class inst = RerankerPluginInstance \<and> inst_plugin inst = p
           \<and> exposed_methods inst = Some ms
           \<and> ''rerank'' \<in> set ms \<and> ''runTask'' \<in> set ms
           \<and> set ms \<subseteq> {''rerank'', ''runTask'', ''type''}
           \<and> set ms \<inter> set ProviderPluginInstance_methods = {}
           \<and> set ms \<inter> set GenerativePluginInstance_methods = {}"
proof -
  have cls: "inst_class (new_instance p) = RerankerPluginInstance"
    using assms by (simp add: new_instance_def class_of_type_def)
  then have "exposed_methods (new_instance p) = Some [''runTask'', ''type'', ''rerank'']"
    by (simp add: exposed_methods_def static_methods_def RerankerPluginInstance_methods_def)
  with cls show ?thesis
    by (simp add: ProviderPluginInstance_methods_def GenerativePluginInstance_methods_def)
qed

text \<open>The plugin \<open>d\<close> of the example, a reranker.\<close>

theorem reranker_instance_surface_witness:
  "m_type (lp_manifest plain_d) = ''reranker''
   \<and> getInstance (VPlugin plain_d) = Inr (new_instance plain_d)
   \<and> exposed_methods (new_instance plain_d) = Some [''runTask'', ''type'', ''rerank'']"
proof -
  have t: "m_type (lp_manifest plain_d) = ''reranker''"
    by (simp add: plain_d_def demo_plugin_def mk_manifest_def)
  from reranker_instance_surface [OF t] obtain inst ms
    where "getInstance (VPlugin plain_d) = Inr inst"
      and "inst_class inst = RerankerPluginInstance"
      and "exposed_methods inst = Some ms"
    by blast
  then have "exposed_methods (new_instance plain_d) = Some [''runTask'', ''type'', ''rerank'']"
    by (auto simp: exposed_methods_def static_methods_def RerankerPluginInstance_methods_def)
  with t show ?thesis by simp
qed


section \<open>The steps of a registration\<close>

lemma validate_config_runner:
  assumes "validate_config w runner details config = Inr runner'"
  shows "pluginId (rn_config runner') = pluginId (rn_config runner)"
    and "pluginPath (rn_config runner') = pluginPath (rn_config runner)"
  using assms
  by (auto simp: validate_config_def split: sum.splits option.splits js_exn.splits)

lemma registerPlugin_cases:
  obtains
    (no_manifest) e where
      "runner_getManifest w (manifest_runner w plugin) = Inl e"
      "registerPlugin w plugin st = (Inl e, st)"
  | (early) manifest e where
      "runner_getManifest w (manifest_runner w plugin) = Inr manifest"
      "registerPlugin w plugin st = (Inl e, cache_manifest plugin manifest st)"
  | (transaction) manifest runner where
      "runner_getManifest w (manifest_runner w plugin) = Inr manifest"
      "pluginId (rn_config runner) = plugin_identity w plugin"
      "pluginPath (rn_config runner) = reg_path plugin"
      "registerPlugin w plugin st =
         (case bootstrap_transaction w (new_instance (loaded_of w plugin manifest runner))
                 (loaded_of w plugin manifest runner) (cache_manifest plugin manifest st) of
            (Inl e, st2) \<Rightarrow> (Inl e, st2)
          | (Inr u, st2) \<Rightarrow> (Inr (), index_plugin (loaded_of w plugin manifest runner) st2))"
proof (cases "runner_getManifest w (manifest_runner w plugin)")
  case (Inl e)
  then have "registerPlugin w plugin st = (Inl e, st)"
    by (simp add: registerPlugin_def Let_def)
  with Inl show ?thesis by (rule no_manifest)
next
  case (Inr manifest)
  let ?st1 = "cache_manifest plugin manifest st"
  show ?thesis
  proof (cases "resolve_config w plugin manifest ?st1")
    case (Inl e)
    with Inr have "registerPlugin w plugin st = (Inl e, ?st1)"
      by (simp add: registerPlugin_def Let_def)
    with Inr show ?thesis by (rule early)
  next
    case cfg: (Inr config)
    let ?runner = "\<lparr>rn_config = \<lparr>pluginId = plugin_identity w plugin,
                       pluginPath = reg_path plugin, pluginConfig = config\<rparr>\<rparr>"
    let ?details = "\<lparr>d_alias = effective_alias plugin manifest, d_path = reg_path plugin,
                      d_manifest = VManifest manifest\<rparr>"
    show ?thesis
    proof (cases "runner_load w (rn_config ?runner)")
      case (Some e)
      with Inr cfg have "registerPlugin w plugin st = (Inl e, ?st1)"
        by (simp add: registerPlugin_def Let_def)
      with Inr show ?thesis by (rule early)
    next
      case None
      show ?thesis
      proof (cases "validate_config w ?runner ?details config")
        case (Inl e)
        with Inr cfg None have "registerPlugin w plugin st = (Inl e, ?st1)"
          by (simp add: registerPlugin_def Let_def)
        with Inr show ?thesis by (rule early)
      next
        case valid: (Inr runner')
        show ?thesis
        proof (cases "runner_initialize w (rn_config runner')")
          case (Some e)
          with Inr cfg None valid
          have "\<exists>e'. registerPlugin w plugin st = (Inl e', ?st1)"
            by (simp add: registerPlugin_def Let_def)
          with Inr show ?thesis by (auto intro: early)
        next
          case init: None
          from Inr cfg None valid init
          have "registerPlugin w plugin st =
                  (case bootstrap_transaction w (new_instance (loaded_of w plugin manifest runner'))
                          (loaded_of w plugin manifest runner') ?st1 of
                     (Inl e, st2) \<Rightarrow> (Inl e, st2)
                   | (Inr u, st2) \<Rightarrow>
                       (Inr (), index_plugin (loaded_of w plugin manifest runner') st2))"
            by (simp add: registerPlugin_def Let_def)
          with Inr validate_config_runner [OF valid] show ?thesis
            by (intro transaction [of manifest runner']) simp_all
        qed
      qed
    qed
  qed
qed

lemma loaded_of_simps [simp]:
  "lp_id (loaded_of w plugin manifest runner) = plugin_identity w plugin"
  "lp_alias (loaded_of w plugin manifest runner) = effective_alias plugin manifest"
  "lp_runner (loaded_of w plugin manifest runner) = runner"
  "lp_manifest (loaded_of w plugin manifest runner) = manifest"
  by (simp_all add: loaded_of_def)

lemma cache_manifest_frame [simp]:
  "trace (cache_manifest plugin manifest st) = trace st"
  "pluginState (cache_manifest plugin manifest st) = pluginState st"
  "pendingDeletes (cache_manifest plugin manifest st) = pendingDeletes st"
  "same_tables st (cache_manifest plugin manifest st)"
  by (simp_all add: cache_manifest_def same_tables_def)

lemma bootstrap_transaction_found:
  assumes "findOne (lp_alias loaded) (pluginState st) = Some d"
  shows "bootstrap_transaction w inst loaded st = (Inr (), st)"
  using assms by (simp add: bootstrap_transaction_def)

lemma bootstrap_transaction_duplicate:
  assumes "findOne (lp_alias loaded) (pluginState st) = None"
    and "list_ex (\<lambda>d. doc_id d = lp_id loaded) (pluginState st)"
  shows "bootstrap_transaction w inst loaded st = (Inl (DuplicateKey (lp_id loaded)), st)"
  using assms by (simp add: bootstrap_transaction_def save_def)

lemma bootstrap_transaction_throws:
  assumes "findOne (lp_alias loaded) (pluginState st) = None"
    and "\<not> list_ex (\<lambda>d. doc_id d = lp_id loaded) (pluginState st)"
    and "runner_runTask w (inst_plugin inst) ''bootstrap'' = Some e"
  shows "bootstrap_transaction w inst loaded st =
           (Inl e, st\<lparr>trace := trace st @ [RunTask (inst_plugin inst) ''bootstrap'']\<rparr>)"
  using assms by (simp add: bootstrap_transaction_def save_def runTask_result)

lemma bootstrap_transaction_commits:
  assumes "findOne (lp_alias loaded) (pluginState st) = None"
    and "\<not> list_ex (\<lambda>d. doc_id d = lp_id loaded) (pluginState st)"
    and "runner_runTask w (inst_plugin inst) ''bootstrap'' = None"
  shows "bootstrap_transaction w inst loaded st =
           (Inr (),
            st\<lparr>trace := trace st @ [RunTask (inst_plugin inst) ''bootstrap''],
               pluginState := pluginState st @
                 [\<lparr>doc_id = lp_id loaded, doc_manifest = lp_manifest loaded,
                   doc_alias = lp_alias loaded\<rparr>]\<rparr>)"
  using assms by (simp add: bootstrap_transaction_def save_def runTask_result)

text \<open>The outcomes of a registration that has a manifest, by what the store holds.\<close>

lemma registerPlugin_outcomes:
  assumes m: "runner_getManifest w (manifest_runner w plugin) = Inr manifest"
  obtains
    (early) e where
      "registerPlugin w plugin st = (Inl e, cache_manifest plugin manifest st)"
  | (found) runner d where
      "findOne (effective_alias plugin manifest) (pluginState st) = Some d"
      "pluginId (rn_config runner) = plugin_identity w plugin"
      "registerPlugin w plugin st =
         (Inr (), index_plugin (loaded_of w plugin manifest runner)
                    (cache_manifest plugin manifest st))"
  | (throws) runner e where
      "findOne (effective_alias plugin manifest) (pluginState st) = None"
      "\<not> list_ex (\<lambda>d. doc_id d = plugin_identity w plugin) (pluginState st)"
      "runner_runTask w (loaded_of w plugin manifest runner) ''bootstrap'' = Some e"
      "registerPlugin w plugin st =
         (Inl e, (cache_manifest plugin manifest st)
                   \<lparr>trace := trace st @
                      [RunTask (loaded_of w plugin manifest runner) ''bootstrap'']\<rparr>)"
  | (commits) runner where
      "findOne (effective_alias plugin manifest) (pluginState st) = None"
      "\<not> list_ex (\<lambda>d. doc_id d = plugin_identity w plugin) (pluginState st)"
      "runner_runTask w (loaded_of w plugin manifest runner) ''bootstrap'' = None"
      "pluginId (rn_config runner) = plugin_identity w plugin"
      "registerPlugin w plugin st =
         (Inr (), index_plugin (loaded_of w plugin manifest runner)
                    ((cache_manifest plugin manifest st)
                       \<lparr>trace := trace st @
                          [RunTask (loaded_of w plugin manifest runner) ''bootstrap''],
                        pluginState := pluginState st @
                          [\<lparr>doc_id = plugin_identity w plugin, doc_manifest = manifest,
                            doc_alias = effective_alias plugin manifest\<rparr>]\<rparr>))"
proof (cases w plugin st rule: registerPlugin_cases)
  case (no_manifest e)
  with m show ?thesis by simp
next
  case (early manifest' e)
  with m show ?thesis by (auto intro: that(1))
next
  case (transaction manifest' runner)
  with m have [simp]: "manifest' = manifest" by simp
  let ?L = "loaded_of w plugin manifest runner"
  let ?st1 = "cache_manifest plugin manifest st"
  note reg = transaction(4) [simplified]
  show ?thesis
  proof (cases "findOne (effective_alias plugin manifest) (pluginState st)")
    case (Some d)
    then have "bootstrap_transaction w (new_instance ?L) ?L ?st1 = (Inr (), ?st1)"
      by (simp add: bootstrap_transaction_found)
    with reg Some transaction(2) show ?thesis by (auto intro: found)
  next
    case None
    show ?thesis
    proof (cases "list_ex (\<lambda>d. doc_id d = plugin_identity w plugin) (pluginState st)")
      case True
      with None have "bootstrap_transaction w (new_instance ?L) ?L ?st1
                        = (Inl (DuplicateKey (lp_id ?L)), ?st1)"
        by (simp add: bootstrap_transaction_duplicate)
      with reg show ?thesis by (auto intro: that(1))
    next
      case False
      show ?thesis
      proof (cases "runner_runTask w ?L ''bootstrap''")
        case (Some e)
        with None False
        have "bootstrap_transaction w (new_instance ?L) ?L ?st1 =
                (Inl e, ?st1\<lparr>trace := trace ?st1 @ [RunTask ?L ''bootstrap'']\<rparr>)"
          by (simp add: bootstrap_transaction_throws)
        with reg None False Some show ?thesis by (auto intro: throws)
      next
        case ok: None
        with None False
        have "bootstrap_transaction w (new_instance ?L) ?L ?st1 =
                (Inr (), ?st1\<lparr>trace := trace ?st1 @ [RunTask ?L ''bootstrap''],
                   pluginState := pluginState ?st1 @
                     [\<lparr>doc_id = lp_id ?L, doc_manifest = lp_manifest ?L,
                       doc_alias = lp_alias ?L\<rparr>]\<rparr>)"
          by (simp add: bootstrap_transaction_commits)
        with reg None False ok transaction(2) show ?thesis by (auto intro: commits)
      qed
    qed
  qed
qed


section \<open>Bootstrap and persisted state\<close>

text \<open>
  C2. If a registration invokes \<^verbatim>\<open>bootstrap\<close> and the task throws, then \<^verbatim>\<open>registerPlugin\<close>
  throws what the task threw, the state documents are those from before, none of them has
  the identity of the plugin as its \<^verbatim>\<open>_id\<close>, and the flat table and the capability tables
  are unchanged.
\<close>

theorem failed_bootstrap_leaves_nothing:
  assumes invoked:
      "trace (snd (registerPlugin w plugin st)) = trace st @ [RunTask loaded ''bootstrap'']"
    and throws: "runner_runTask w loaded ''bootstrap'' = Some e"
  shows "fst (registerPlugin w plugin st) = Inl e
     \<and> lp_id loaded = plugin_identity w plugin
     \<and> pluginState (snd (registerPlugin w plugin st)) = pluginState st
     \<and> \<not> list_ex (\<lambda>d. doc_id d = plugin_identity w plugin)
           (pluginState (snd (registerPlugin w plugin st)))
     \<and> same_tables st (snd (registerPlugin w plugin st))"
proof (cases "runner_getManifest w (manifest_runner w plugin)")
  case (Inl e')
  then have "registerPlugin w plugin st = (Inl e', st)"
    by (simp add: registerPlugin_def Let_def)
  with invoked show ?thesis by simp
next
  case (Inr manifest)
  then show ?thesis
  proof (cases rule: registerPlugin_outcomes [where st = st])
    case (early e')
    with invoked show ?thesis by simp
  next
    case (found runner d)
    with invoked show ?thesis by (simp add: index_plugin_frame)
  next
    case (throws runner e')
    with invoked have "loaded = loaded_of w plugin manifest runner" by simp
    with throws \<open>runner_runTask w loaded ''bootstrap'' = Some e\<close> show ?thesis
      by (simp add: same_tables_def cache_manifest_def)
  next
    case (commits runner)
    with invoked have "loaded = loaded_of w plugin manifest runner"
      by (simp add: index_plugin_frame)
    with commits(3) \<open>runner_runTask w loaded ''bootstrap'' = Some e\<close> show ?thesis by simp
  qed
qed

lemma findOne_append_last:
  assumes "doc_alias d = a"
  shows "findOne a (docs @ [d]) \<noteq> None"
  using assms by (auto simp: findOne_def find_None_iff)

lemma registerPlugin_known_alias:
  assumes "runner_getManifest w (manifest_runner w plugin) = Inr manifest"
    and "findOne (effective_alias plugin manifest) (pluginState st) \<noteq> None"
  shows "trace (snd (registerPlugin w plugin st)) = trace st
       \<and> pluginState (snd (registerPlugin w plugin st)) = pluginState st"
  using assms(1)
proof (cases rule: registerPlugin_outcomes [where st = st])
  case (early e)
  then show ?thesis by simp
next
  case (found runner d)
  then show ?thesis by (simp add: index_plugin_frame)
next
  case (throws runner e)
  with assms(2) show ?thesis by simp
next
  case (commits runner)
  with assms(2) show ?thesis by simp
qed

text \<open>
  What the transaction guarantees. If a registration succeeds and beforehand no state
  document carried the alias under which the plugin is registered, then it invoked
  \<^verbatim>\<open>bootstrap\<close> exactly once, invoked no other task, and created exactly one state
  document, keyed by the identity.
\<close>

lemma bootstrap_once_when_alias_unknown:
  assumes ok: "registerPlugin w plugin st = (Inr u, st')"
    and m: "runner_getManifest w (manifest_runner w plugin) = Inr manifest"
    and fresh: "findOne (effective_alias plugin manifest) (pluginState st) = None"
  shows "\<exists>loaded.
           lp_id loaded = plugin_identity w plugin
         \<and> lp_alias loaded = effective_alias plugin manifest
         \<and> trace st' = trace st @ [RunTask loaded ''bootstrap'']
         \<and> pluginState st' = pluginState st @
              [\<lparr>doc_id = plugin_identity w plugin, doc_manifest = manifest,
                doc_alias = effective_alias plugin manifest\<rparr>]"
  using m
proof (cases rule: registerPlugin_outcomes [where st = st])
  case (early e)
  with ok show ?thesis by simp
next
  case (found runner d)
  with fresh show ?thesis by simp
next
  case (throws runner e)
  with ok show ?thesis by simp
next
  case (commits runner)
  let ?L = "loaded_of w plugin manifest runner"
  from commits(5) ok
  have "trace st' = trace st @ [RunTask ?L ''bootstrap'']"
    and "pluginState st' = pluginState st @
           [\<lparr>doc_id = plugin_identity w plugin, doc_manifest = manifest,
             doc_alias = effective_alias plugin manifest\<rparr>]"
    by (auto simp: index_plugin_frame)
  then show ?thesis
    by (intro exI [of _ ?L]) simp
qed

text \<open>
  Whatever the world, the declaration and the registry: a registration under an alias that
  some state document carries invokes no task and leaves the documents as they are.
\<close>

lemma registerPlugin_same_alias_again:
  assumes "reg_alias plugin \<noteq> []"
    and "findOne (reg_alias plugin) (pluginState st) \<noteq> None"
  shows "trace (snd (registerPlugin w plugin st)) = trace st
       \<and> pluginState (snd (registerPlugin w plugin st)) = pluginState st"
proof (cases "runner_getManifest w (manifest_runner w plugin)")
  case (Inl e)
  then show ?thesis by (simp add: registerPlugin_def Let_def)
next
  case (Inr manifest)
  moreover from assms
  have "findOne (effective_alias plugin manifest) (pluginState st) \<noteq> None"
    by (simp add: effective_alias_def)
  ultimately show ?thesis by (rule registerPlugin_known_alias)
qed

lemmas demo_defs =
  demo_world_def demo_uuid_v5_def demo_getManifest_def demo_runTask_def mk_manifest_def
  named_foo_def anonymous_foo_def fragile_declaration_def manifest_runner_def
  plugin_identity_def uuid_v5_URL_def

lemmas registerPlugin_defs =
  registerPlugin_def Let_def resolve_config_def defaultConfigLoader_def validate_config_def
  effective_alias_def loaded_of_def new_instance_def cache_manifest_def
  bootstrap_transaction_def findOne_def save_def runTask_def

lemma demo_named_foo_ok:
  "fst (registerPlugin demo_world named_foo (new_registry [])) = Inr ()"
  by (simp add: registerPlugin_defs demo_defs new_registry_def)

lemma after_anonymous_foo_eval:
  "fst (registerPlugin demo_world anonymous_foo (new_registry [])) = Inr ()"
  "pluginState after_anonymous_foo =
     [\<lparr>doc_id = ''1b4db7eb-4057-5ddf-91e0-36dec72071f5'',
       doc_manifest = mk_manifest ''foo'' ''enhancer'' None, doc_alias = ''foo''\<rparr>]"
  by (simp_all add: after_anonymous_foo_def registerPlugin_defs demo_defs new_registry_def
      index_plugin_frame)

text \<open>
  C1. The identity is computed from the alias of the declaration as it is written, the
  alias of the state document from \<^verbatim>\<open>plugin.alias || manifest.name\<close>, and the state is looked
  up by alias. After the plugin \<^verbatim>\<open>foo\<close> has been registered without an alias, the only
  state document has the identity of the empty alias and the alias \<^verbatim>\<open>foo\<close>. A declaration
  with the alias \<^verbatim>\<open>foo\<close> has another identity, for which there is no document; it
  registers successfully, without any invocation of \<^verbatim>\<open>bootstrap\<close> and without a new
  document.
\<close>

theorem registerPlugin_skips_bootstrap_for_new_identity:
  "fst (registerPlugin demo_world anonymous_foo (new_registry [])) = Inr ()
   \<and> after_anonymous_foo = snd (registerPlugin demo_world anonymous_foo (new_registry []))
   \<and> map doc_id (pluginState after_anonymous_foo) = [''1b4db7eb-4057-5ddf-91e0-36dec72071f5'']
   \<and> plugin_identity demo_world named_foo = ''7da78284-2f14-5e7f-95e1-baaa9027c26f''
   \<and> fst (registerPlugin demo_world named_foo after_anonymous_foo) = Inr ()
   \<and> trace (snd (registerPlugin demo_world named_foo after_anonymous_foo))
       = trace after_anonymous_foo
   \<and> pluginState (snd (registerPlugin demo_world named_foo after_anonymous_foo))
       = pluginState after_anonymous_foo"
proof -
  have m: "runner_getManifest demo_world (manifest_runner demo_world named_foo)
             = Inr (mk_manifest ''foo'' ''enhancer'' None)"
    by (simp add: demo_defs)
  have known: "findOne (effective_alias named_foo (mk_manifest ''foo'' ''enhancer'' None))
                 (pluginState after_anonymous_foo) \<noteq> None"
    by (simp add: after_anonymous_foo_eval findOne_def effective_alias_def named_foo_def)
  have ident: "plugin_identity demo_world named_foo = ''7da78284-2f14-5e7f-95e1-baaa9027c26f''"
    by (simp add: demo_defs)
  have ok: "fst (registerPlugin demo_world named_foo after_anonymous_foo) = Inr ()"
    by (simp add: registerPlugin_defs demo_defs after_anonymous_foo_eval)
  from registerPlugin_known_alias [OF m known] ident ok after_anonymous_foo_eval
  show ?thesis by (simp add: after_anonymous_foo_def)
qed

lemma demo_fragile_trace:
  "trace (snd (registerPlugin demo_world fragile_declaration (new_registry [])))
     = trace (new_registry []) @ [RunTask fragile_plugin ''bootstrap'']"
  by (simp add: registerPlugin_defs demo_defs new_registry_def fragile_plugin_def
      demo_plugin_def)

text \<open>The plugin \<^verbatim>\<open>fragile\<close>, whose \<^verbatim>\<open>bootstrap\<close> throws, with an empty store.\<close>

theorem failed_bootstrap_leaves_nothing_witness:
  "trace (snd (registerPlugin demo_world fragile_declaration (new_registry [])))
     = [RunTask fragile_plugin ''bootstrap'']
   \<and> runner_runTask demo_world fragile_plugin ''bootstrap'' = Some (Thrown ''boom'')
   \<and> fst (registerPlugin demo_world fragile_declaration (new_registry []))
       = Inl (Thrown ''boom'')
   \<and> pluginState (snd (registerPlugin demo_world fragile_declaration (new_registry []))) = []
   \<and> same_tables (new_registry [])
        (snd (registerPlugin demo_world fragile_declaration (new_registry [])))"
  using failed_bootstrap_leaves_nothing [OF demo_fragile_trace fragile_outcome]
    demo_fragile_trace fragile_outcome
  by (simp add: new_registry_def)


section \<open>Identity\<close>

lemma map_of_insert_index: "map_of (insert_index k v xs) k = Some v"
  by (induction xs) auto

lemma obj_get_obj_set_same: "obj_get emb fld (obj_set obj k v) k = emb v"
  by (simp add: obj_get_def obj_set_def map_of_insert_index update_conv')

lemma registerPlugin_success:
  assumes "registerPlugin w plugin st = (Inr u, st')"
  obtains manifest runner st2 where
    "runner_getManifest w (manifest_runner w plugin) = Inr manifest"
    "pluginId (rn_config runner) = plugin_identity w plugin"
    "st' = index_plugin (loaded_of w plugin manifest runner) st2"
proof (cases w plugin st rule: registerPlugin_cases)
  case (no_manifest e)
  with assms show ?thesis by simp
next
  case (early manifest e)
  with assms show ?thesis by simp
next
  case (transaction manifest runner)
  with assms show ?thesis
    by (auto split: prod.splits sum.splits intro: that)
qed

lemma registerPlugin_stores:
  assumes "registerPlugin w plugin st = (Inr u, st')"
  shows "\<exists>l. plugins_get (plugins st') (lp_alias l) = VPlugin l
             \<and> runner_getManifest w (manifest_runner w plugin) = Inr (lp_manifest l)
             \<and> lp_alias l = effective_alias plugin (lp_manifest l)
             \<and> lp_id l = plugin_identity w plugin
             \<and> pluginId (rn_config (lp_runner l)) = plugin_identity w plugin"
proof -
  from assms obtain manifest runner st2 where
    m: "runner_getManifest w (manifest_runner w plugin) = Inr manifest"
    and r: "pluginId (rn_config runner) = plugin_identity w plugin"
    and st': "st' = index_plugin (loaded_of w plugin manifest runner) st2"
    by (rule registerPlugin_success)
  let ?L = "loaded_of w plugin manifest runner"
  from st' have "plugins_get (plugins st') (lp_alias ?L) = VPlugin ?L"
    by (simp add: index_plugin_frame plugins_get_def obj_get_obj_set_same)
  with m r show ?thesis
    by (intro exI [of _ ?L]) simp
qed

text \<open>
  C4. The identity is computed from the alias of the declaration alone. When two
  registrations succeed, in whatever worlds and registries, with declarations that carry
  the same alias and with the same \<^verbatim>\<open>uuid\<close> function, then the loaded plugins they store in
  the flat table have the same \<^verbatim>\<open>id\<close>, namely \<^verbatim>\<open>uuid.v5(alias, uuid.v5.URL)\<close>, and their
  runners carry it as \<^verbatim>\<open>pluginId\<close>; path, configuration and manifest play no part.
\<close>

theorem identity_determined_by_alias:
  assumes "registerPlugin w1 p1 s1 = (Inr u1, t1)"
    and "registerPlugin w2 p2 s2 = (Inr u2, t2)"
    and "reg_alias p1 = reg_alias p2"
    and "uuid_v5 w1 = uuid_v5 w2"
  shows "\<exists>l1 l2.
           plugins_get (plugins t1) (lp_alias l1) = VPlugin l1
         \<and> runner_getManifest w1 (manifest_runner w1 p1) = Inr (lp_manifest l1)
         \<and> lp_alias l1 = effective_alias p1 (lp_manifest l1)
         \<and> plugins_get (plugins t2) (lp_alias l2) = VPlugin l2
         \<and> runner_getManifest w2 (manifest_runner w2 p2) = Inr (lp_manifest l2)
         \<and> lp_alias l2 = effective_alias p2 (lp_manifest l2)
         \<and> lp_id l1 = uuid_v5 w1 (reg_alias p1) uuid_v5_URL
         \<and> lp_id l2 = lp_id l1
         \<and> pluginId (rn_config (lp_runner l1)) = lp_id l1
         \<and> pluginId (rn_config (lp_runner l2)) = lp_id l2"
proof -
  from registerPlugin_stores [OF assms(1)] obtain l1 where
    l1: "plugins_get (plugins t1) (lp_alias l1) = VPlugin l1"
      "runner_getManifest w1 (manifest_runner w1 p1) = Inr (lp_manifest l1)"
      "lp_alias l1 = effective_alias p1 (lp_manifest l1)"
      "lp_id l1 = plugin_identity w1 p1"
      "pluginId (rn_config (lp_runner l1)) = plugin_identity w1 p1"
    by blast
  from registerPlugin_stores [OF assms(2)] obtain l2 where
    l2: "plugins_get (plugins t2) (lp_alias l2) = VPlugin l2"
      "runner_getManifest w2 (manifest_runner w2 p2) = Inr (lp_manifest l2)"
      "lp_alias l2 = effective_alias p2 (lp_manifest l2)"
      "lp_id l2 = plugin_identity w2 p2"
      "pluginId (rn_config (lp_runner l2)) = plugin_identity w2 p2"
    by blast
  from assms(3,4) have "plugin_identity w2 p2 = plugin_identity w1 p1"
    by (simp add: plugin_identity_def)
  with l1 l2 show ?thesis
    by (intro exI [of _ l1] exI [of _ l2]) (simp add: plugin_identity_def)
qed

lemma demo_other_foo_ok:
  "fst (registerPlugin demo_world other_foo fragile_registry) = Inr ()"
  by (simp add: registerPlugin_defs demo_defs other_foo_def fragile_registry_def
      index_plugin_frame new_registry_def fragile_plugin_def demo_plugin_def)


text \<open>
  Two declarations with the alias \<^verbatim>\<open>foo\<close> for different modules, registered in different
  registries.
\<close>

theorem identity_determined_by_alias_witness:
  "registerPlugin demo_world named_foo (new_registry []) = (Inr (), after_named_foo)
   \<and> registerPlugin demo_world other_foo fragile_registry = (Inr (), after_other_foo)
   \<and> reg_alias named_foo = reg_alias other_foo
   \<and> reg_path named_foo \<noteq> reg_path other_foo
   \<and> (\<exists>l1 l2. plugins_get (plugins after_named_foo) ''foo'' = VPlugin l1
          \<and> plugins_get (plugins after_other_foo) ''foo'' = VPlugin l2
          \<and> lp_id l1 = ''7da78284-2f14-5e7f-95e1-baaa9027c26f''
          \<and> lp_id l2 = ''7da78284-2f14-5e7f-95e1-baaa9027c26f'')"
proof -
  have one: "registerPlugin demo_world named_foo (new_registry []) = (Inr (), after_named_foo)"
    using demo_named_foo_ok by (simp add: after_named_foo_def prod_eq_iff)
  have two: "registerPlugin demo_world other_foo fragile_registry = (Inr (), after_other_foo)"
    using demo_other_foo_ok by (simp add: after_other_foo_def prod_eq_iff)
  have same: "reg_alias named_foo = reg_alias other_foo"
    and differ: "reg_path named_foo \<noteq> reg_path other_foo"
    by (simp_all add: named_foo_def other_foo_def)
  have eff: "effective_alias named_foo m = ''foo''" "effective_alias other_foo m = ''foo''" for m
    by (simp_all add: effective_alias_def named_foo_def other_foo_def)
  have ident: "uuid_v5 demo_world (reg_alias named_foo) uuid_v5_URL
                 = ''7da78284-2f14-5e7f-95e1-baaa9027c26f''"
    by (simp add: demo_defs)
  from identity_determined_by_alias [OF one two same refl] obtain l1 l2 where
    "plugins_get (plugins after_named_foo) (lp_alias l1) = VPlugin l1"
    "lp_alias l1 = effective_alias named_foo (lp_manifest l1)"
    "plugins_get (plugins after_other_foo) (lp_alias l2) = VPlugin l2"
    "lp_alias l2 = effective_alias other_foo (lp_manifest l2)"
    "lp_id l1 = uuid_v5 demo_world (reg_alias named_foo) uuid_v5_URL"
    "lp_id l2 = lp_id l1"
    by blast
  with eff ident have "plugins_get (plugins after_named_foo) ''foo'' = VPlugin l1
      \<and> plugins_get (plugins after_other_foo) ''foo'' = VPlugin l2
      \<and> lp_id l1 = ''7da78284-2f14-5e7f-95e1-baaa9027c26f''
      \<and> lp_id l2 = ''7da78284-2f14-5e7f-95e1-baaa9027c26f''"
    by simp
  with one two same differ show ?thesis by blast
qed

section \<open>Batch registration\<close>

lemma registerPlugin_no_manifest:
  assumes "runner_getManifest w (manifest_runner w plugin) = Inl e"
  shows "registerPlugin w plugin st = (Inl e, st)"
  using assms by (simp add: registerPlugin_def Let_def)

lemma registers_all_manifests:
  assumes "registers_all w ps st = Some st'" and "p \<in> set ps"
  shows "\<exists>m. runner_getManifest w (manifest_runner w p) = Inr m"
  using assms
proof (induction ps arbitrary: st)
  case Nil
  then show ?case by simp
next
  case (Cons q ps)
  from Cons.prems(1) obtain u st1 where
    q: "registerPlugin w q st = (Inr u, st1)" and rest: "registers_all w ps st1 = Some st'"
    by (auto split: prod.splits sum.splits)
  show ?case
  proof (cases "p = q")
    case True
    from q have "\<exists>m. runner_getManifest w (manifest_runner w q) = Inr m"
      by (auto elim: registerPlugin_success)
    with True show ?thesis by simp
  next
    case False
    with Cons.prems(2) have "p \<in> set ps" by simp
    with Cons.IH rest show ?thesis by blast
  qed
qed

lemma manifest_phase_no_errors:
  assumes "\<forall>p\<in>set ps. \<forall>e. runner_getManifest w (manifest_runner w p) = Inl e
             \<longrightarrow> \<not> is_registry_error e"
  shows "fst (manifest_phase w ps errors st) = errors"
  using assms
proof (induction ps arbitrary: st)
  case Nil
  show ?case by simp
next
  case (Cons p ps)
  then have IH: "fst (manifest_phase w ps errors st') = errors" for st'
    by simp
  show ?case
  proof (cases "runner_getManifest w (manifest_runner w p)")
    case (Inl e)
    with Cons.prems have "\<not> is_registry_error e" by simp
    with Inl IH show ?thesis by simp
  next
    case (Inr m)
    with IH show ?thesis by simp
  qed
qed

lemma registration_phase_append:
  assumes "registers_all w ps st = Some st'"
  shows "registration_phase w (ps @ qs) errors st = registration_phase w qs errors st'"
  using assms
proof (induction ps arbitrary: st)
  case Nil
  then show ?case by simp
next
  case (Cons p ps)
  from Cons.prems obtain u st1 where
    p: "registerPlugin w p st = (Inr u, st1)" and rest: "registers_all w ps st1 = Some st'"
    by (auto split: prod.splits sum.splits)
  with Cons.IH [OF rest] show ?case by simp
qed

lemma registration_phase_all:
  assumes "registers_all w ps st = Some st'"
  shows "registration_phase w ps errors st = (errors, st')"
  using registration_phase_append [OF assms, of "[]" errors] by simp


lemma map_of_insert_index_other:
  "a \<noteq> k \<Longrightarrow> map_of (insert_index k v xs) a = map_of xs a"
  by (induction xs) auto

lemma plugins_get_obj_set_other:
  assumes "a \<noteq> k" and "plugins_get obj a = VPlugin l"
  shows "plugins_get (obj_set obj k v) a = VPlugin l"
proof (cases "k = ''__proto__''")
  case True
  with assms(1) have a: "a \<noteq> ''__proto__''" by simp
  with assms(2) have "map_of (own_props obj) a = Some l"
    by (auto simp: plugins_get_def obj_get_def plugin_field_def
        split: option.splits if_splits)
  with a True show ?thesis
    by (simp add: plugins_get_def obj_get_def obj_set_def)
next
  case False
  then have p: "proto_obj (obj_set obj k v) = proto_obj obj"
    by (simp add: obj_set_def)
  from False assms(1)
  have m: "map_of (own_props (obj_set obj k v)) a = map_of (own_props obj) a"
    by (simp add: obj_set_def map_of_insert_index_other update_conv')
  have "plugins_get (obj_set obj k v) a = plugins_get obj a"
    by (simp only: plugins_get_def obj_get_def p m)
  with assms(2) show ?thesis by simp
qed

lemma bootstrap_transaction_plugins:
  "plugins (snd (bootstrap_transaction w inst loaded st)) = plugins st"
  by (simp add: bootstrap_transaction_def runTask_result split: option.splits sum.splits)

lemma registerPlugin_plugins:
  "plugins (snd (registerPlugin w q st)) = plugins st
   \<or> (\<exists>l. plugins (snd (registerPlugin w q st)) = obj_set (plugins st) (lp_alias l) l)"
proof (cases w q st rule: registerPlugin_cases)
  case (no_manifest e)
  then show ?thesis by simp
next
  case (early manifest e)
  then show ?thesis by (simp add: cache_manifest_def)
next
  case (transaction manifest runner)
  let ?L = "loaded_of w q manifest runner"
  let ?st1 = "cache_manifest q manifest st"
  obtain r st2 where bt: "bootstrap_transaction w (new_instance ?L) ?L ?st1 = (r, st2)"
    by (cases "bootstrap_transaction w (new_instance ?L) ?L ?st1")
  with bootstrap_transaction_plugins [of w "new_instance ?L" ?L ?st1]
  have "plugins st2 = plugins st" by (simp add: cache_manifest_def)
  show ?thesis
  proof (cases r)
    case (Inl e)
    with transaction(4) bt \<open>plugins st2 = plugins st\<close> show ?thesis by simp
  next
    case (Inr u)
    with transaction(4) bt \<open>plugins st2 = plugins st\<close>
    have "plugins (snd (registerPlugin w q st)) = obj_set (plugins st) (lp_alias ?L) ?L"
      by (simp add: index_plugin_frame)
    then show ?thesis by blast
  qed
qed

lemma registered_preserved:
  assumes "registered st a"
  shows "registered (snd (registerPlugin w q st)) a"
proof -
  from assms obtain l where l: "plugins_get (plugins st) a = VPlugin l" "lp_alias l = a"
    by (auto simp: registered_def split: js_val.splits)
  from registerPlugin_plugins [of w q st] show ?thesis
  proof
    assume "plugins (snd (registerPlugin w q st)) = plugins st"
    with assms show ?thesis by (simp add: registered_def)
  next
    assume "\<exists>l'. plugins (snd (registerPlugin w q st)) = obj_set (plugins st) (lp_alias l') l'"
    then obtain l' where
      eq: "plugins (snd (registerPlugin w q st)) = obj_set (plugins st) (lp_alias l') l'"
      by blast
    show ?thesis
    proof (cases "a = lp_alias l'")
      case True
      with eq show ?thesis
        by (simp add: registered_def plugins_get_def obj_get_obj_set_same)
    next
      case False
      from plugins_get_obj_set_other [OF False l(1)] eq l(2) show ?thesis
        by (simp add: registered_def)
    qed
  qed
qed

lemma registers_all_preserves:
  assumes "registers_all w ps st = Some st'" and "registered st a"
  shows "registered st' a"
  using assms
proof (induction ps arbitrary: st)
  case Nil
  then show ?case by simp
next
  case (Cons p ps)
  from Cons.prems(1) obtain u st1 where
    p: "registerPlugin w p st = (Inr u, st1)" and rest: "registers_all w ps st1 = Some st'"
    by (auto split: prod.splits sum.splits)
  from registered_preserved [OF Cons.prems(2), of w p] p have "registered st1 a" by simp
  with Cons.IH rest show ?case by blast
qed

lemma registerPlugin_registers:
  assumes "registerPlugin w p st = (Inr u, st')"
  shows "declaration_registered w st' p"
  using registerPlugin_stores [OF assms]
  by (auto simp: declaration_registered_def registered_def)

lemma declaration_registered_preserved:
  assumes "registers_all w ps st = Some st'" and "declaration_registered w st p"
  shows "declaration_registered w st' p"
  using assms registers_all_preserves
  by (auto simp: declaration_registered_def split: sum.splits)

lemma registers_all_registered:
  assumes "registers_all w ps st = Some st'"
  shows "list_all (declaration_registered w st') ps"
  using assms
proof (induction ps arbitrary: st)
  case Nil
  show ?case by simp
next
  case (Cons p ps)
  from Cons.prems obtain u st1 where
    p: "registerPlugin w p st = (Inr u, st1)" and rest: "registers_all w ps st1 = Some st'"
    by (auto split: prod.splits sum.splits)
  from registerPlugin_registers [OF p] rest have "declaration_registered w st' p"
    by (simp add: declaration_registered_preserved)
  with Cons.IH [OF rest] show ?case by simp
qed

text \<open>
  C3. Let a batch consist of the declarations \<open>pre\<close>, one declaration \<open>bad\<close> and the
  declarations \<open>post\<close>, where \<^verbatim>\<open>getManifest\<close> of \<open>bad\<close> throws something that is not a
  \<^verbatim>\<open>PluginRegistry.Error\<close>, and all the others register successfully in their turn. Then
  \<^verbatim>\<open>register\<close> returns exactly one registration error, which carries the alias and path of
  \<open>bad\<close> and what was thrown, and afterwards every other declaration of the batch is
  registered in the flat table.
\<close>

theorem register_isolates_invalid_manifest:
  assumes bad: "runner_getManifest w (manifest_runner w bad) = Inl e"
    and kind: "\<not> is_registry_error e"
    and pre: "registers_all w pre (snd (manifest_phase w (pre @ bad # post) [] st)) = Some st2"
    and post: "registers_all w post st2 = Some st3"
  shows "register w (pre @ bad # post) st =
           ([RegistryError ''Failed to register plugin''
               \<lparr>d_alias = reg_alias bad, d_path = reg_path bad,
                d_manifest = (let m = manifests_get (manifests st2) (reg_alias bad)
                              in if truthy m then m else VUndefined)\<rparr> e],
            st3)
       \<and> list_all (declaration_registered w st3) (pre @ post)"
proof -
  let ?ps = "pre @ bad # post"
  let ?st1 = "snd (manifest_phase w ?ps [] st)"
  have "\<forall>p\<in>set ?ps. \<forall>e'. runner_getManifest w (manifest_runner w p) = Inl e'
          \<longrightarrow> \<not> is_registry_error e'"
  proof (intro ballI allI impI)
    fix p e'
    assume p: "p \<in> set ?ps" and e': "runner_getManifest w (manifest_runner w p) = Inl e'"
    from p consider "p \<in> set pre" | "p = bad" | "p \<in> set post" by auto
    then show "\<not> is_registry_error e'"
    proof cases
      case 1
      with registers_all_manifests [OF pre] e' show ?thesis by fastforce
    next
      case 2
      with bad kind e' show ?thesis by simp
    next
      case 3
      with registers_all_manifests [OF post] e' show ?thesis by fastforce
    qed
  qed
  then have phase1: "fst (manifest_phase w ?ps [] st) = []"
    by (rule manifest_phase_no_errors)
  have fail: "registerPlugin w bad st2 = (Inl e, st2)"
    using bad by (rule registerPlugin_no_manifest)
  have "register w ?ps st = registration_phase w ?ps [] ?st1"
    using phase1 by (simp add: register_def case_prod_beta)
  also have "\<dots> = registration_phase w (bad # post) [] st2"
    using pre by (rule registration_phase_append)
  also have "\<dots> =
      ([RegistryError ''Failed to register plugin''
          \<lparr>d_alias = reg_alias bad, d_path = reg_path bad,
           d_manifest = (let m = manifests_get (manifests st2) (reg_alias bad)
                         in if truthy m then m else VUndefined)\<rparr> e], st3)"
    using fail kind registration_phase_all [OF post] by simp
  finally have result: "register w ?ps st =
      ([RegistryError ''Failed to register plugin''
          \<lparr>d_alias = reg_alias bad, d_path = reg_path bad,
           d_manifest = (let m = manifests_get (manifests st2) (reg_alias bad)
                         in if truthy m then m else VUndefined)\<rparr> e], st3)" .
  from registers_all_registered [OF pre] post
  have "list_all (declaration_registered w st3) pre"
    by (auto simp: list_all_iff intro: declaration_registered_preserved)
  with registers_all_registered [OF post] result show ?thesis by simp
qed


lemma batch_after_manifests_eval:
  "batch_after_manifests =
     (new_registry [])
       \<lparr>manifests := \<lparr>own_props = [(''foo'', mk_manifest ''foo'' ''enhancer'' None),
                                     (''cohere'', mk_manifest ''cohere'' ''reranker'' None)],
                       proto_obj = None\<rparr>\<rparr>"
  by (simp add: batch_after_manifests_def demo_batch_def demo_defs broken_declaration_def
      cohere_declaration_def cache_manifest_def new_registry_def empty_object_def obj_set_def
      is_array_index_def is_digit_def)

lemma batch_after_foo_eval:
  "fst (registerPlugin demo_world named_foo batch_after_manifests) = Inr ()"
  "pluginState batch_after_foo =
     [\<lparr>doc_id = ''7da78284-2f14-5e7f-95e1-baaa9027c26f'',
       doc_manifest = mk_manifest ''foo'' ''enhancer'' None, doc_alias = ''foo''\<rparr>]"
  "manifests_get (manifests batch_after_foo) ''broken'' = VUndefined"
  by (simp_all add: batch_after_foo_def batch_after_manifests_eval registerPlugin_defs
      demo_defs new_registry_def index_plugin_frame obj_set_def manifests_get_def
      obj_get_def object_prototype_names_def is_array_index_def is_digit_def)

lemma batch_after_cohere_eval:
  "fst (registerPlugin demo_world cohere_declaration batch_after_foo) = Inr ()"
  by (simp add: registerPlugin_defs demo_defs cohere_declaration_def batch_after_foo_eval)

lemma registers_all_single:
  assumes "fst (registerPlugin w p st) = Inr ()"
  shows "registers_all w [p] st = Some (snd (registerPlugin w p st))"
  using assms by (cases "registerPlugin w p st") auto

text \<open>
  The batch of \<^verbatim>\<open>foo\<close>, a declaration whose module is missing, and \<^verbatim>\<open>cohere\<close>, on a new
  registry.
\<close>

theorem register_isolates_invalid_manifest_witness:
  "runner_getManifest demo_world (manifest_runner demo_world broken_declaration)
     = Inl (Thrown ''ManifestError'')
   \<and> registers_all demo_world [named_foo] batch_after_manifests = Some batch_after_foo
   \<and> registers_all demo_world [cohere_declaration] batch_after_foo = Some batch_after_cohere
   \<and> register demo_world [named_foo, broken_declaration, cohere_declaration] (new_registry [])
       = ([RegistryError ''Failed to register plugin''
             \<lparr>d_alias = ''broken'', d_path = ''plugins/missing'', d_manifest = VUndefined\<rparr>
             (Thrown ''ManifestError'')],
          batch_after_cohere)
   \<and> declaration_registered demo_world batch_after_cohere named_foo
   \<and> declaration_registered demo_world batch_after_cohere cohere_declaration"
proof -
  have bad: "runner_getManifest demo_world (manifest_runner demo_world broken_declaration)
               = Inl (Thrown ''ManifestError'')"
    by (simp add: demo_defs broken_declaration_def)
  have kind: "\<not> is_registry_error (Thrown ''ManifestError'')"
    by simp
  have pre: "registers_all demo_world [named_foo]
               (snd (manifest_phase demo_world
                       ([named_foo] @ broken_declaration # [cohere_declaration]) []
                       (new_registry [])))
             = Some batch_after_foo"
    using registers_all_single [OF batch_after_foo_eval(1)]
    by (simp only: batch_after_foo_def batch_after_manifests_def demo_batch_def append.simps)
  have post: "registers_all demo_world [cohere_declaration] batch_after_foo
                = Some batch_after_cohere"
    using registers_all_single [OF batch_after_cohere_eval]
    by (simp only: batch_after_cohere_def)
  from register_isolates_invalid_manifest [OF bad kind pre post] bad pre post
  show ?thesis
    by (simp add: batch_after_foo_eval broken_declaration_def batch_after_manifests_def
        demo_batch_def)
qed

section \<open>Services after a registration\<close>

lemmas service_defs =
  service_two_def service_one_def proto_service_def plugin_two_def plugin_one_def
  plugin_proto_def demo_plugin_def

lemma numbered_registry_eval:
  "fst (register demo_world [service_two, service_one] (new_registry [])) = []"
  "obj_values (plugins numbered_registry) = [plugin_one, plugin_two]"
  by (simp_all add: numbered_registry_def register_def registerPlugin_defs demo_defs
      service_defs new_registry_def index_plugin_def empty_object_def obj_set_def
      obj_values_def is_array_index_def is_digit_def index_value_def)


lemma numbered_registry_trace:
  "trace numbered_registry = [RunTask plugin_two ''bootstrap'', RunTask plugin_one ''bootstrap'']"
  by (simp add: numbered_registry_def register_def registerPlugin_defs demo_defs
      service_defs new_registry_def index_plugin_frame)

lemma numbered_services:
  "is_service plugin_two" "is_service plugin_one"
  "runner_runTask demo_world plugin_one ''startService'' = None"
  "runner_runTask demo_world plugin_two ''startService'' = Some (Thrown ''boom'')"
  "d_alias (service_details plugin_two) = ''2''"
  by (simp_all add: is_service_def service_defs mk_manifest_def demo_world_def
      demo_runTask_def service_details_def)

text \<open>
  C6. The service plugins \<^verbatim>\<open>2\<close> and \<^verbatim>\<open>1\<close> are registered in this order, as the order of
  their \<^verbatim>\<open>bootstrap\<close> invocations shows, and \<^verbatim>\<open>startService\<close> of the first, \<^verbatim>\<open>2\<close>, throws.
  \<^verbatim>\<open>Object.values(this.plugins)\<close> enumerates keys that are array indices in ascending
  order, so \<^verbatim>\<open>startServices()\<close> starts the plugin \<^verbatim>\<open>1\<close>, registered after the one that
  throws, before it reaches \<^verbatim>\<open>2\<close> and throws the error that names it.
\<close>

theorem startServices_starts_later_registration:
  "register demo_world [service_two, service_one] (new_registry []) = ([], numbered_registry)
   \<and> trace numbered_registry
       = [RunTask plugin_two ''bootstrap'', RunTask plugin_one ''bootstrap'']
   \<and> obj_values (plugins numbered_registry) = [plugin_one, plugin_two]
   \<and> is_service plugin_two \<and> is_service plugin_one
   \<and> runner_runTask demo_world plugin_two ''startService'' = Some (Thrown ''boom'')
   \<and> startServices demo_world numbered_registry =
       (Inl (RegistryError ''Failed to start plugin service'' (service_details plugin_two)
               (Thrown ''boom'')),
        numbered_registry
          \<lparr>trace := trace numbered_registry @
             [RunTask plugin_one ''startService'', RunTask plugin_two ''startService'']\<rparr>)
   \<and> d_alias (service_details plugin_two) = ''2''"
proof -
  let ?svcs = "filter is_service (obj_values (plugins numbered_registry))"
  have svcs: "?svcs = [plugin_one, plugin_two]"
    by (simp add: numbered_registry_eval numbered_services)
  have reg: "register demo_world [service_two, service_one] (new_registry [])
               = ([], numbered_registry)"
    using numbered_registry_eval(1) by (simp add: numbered_registry_def prod_eq_iff)
  have k: "1 < length ?svcs"
    by (simp add: svcs)
  have before: "\<forall>j<1. runner_runTask demo_world (?svcs ! j) ''startService'' = None"
    by (simp add: svcs numbered_services)
  have fails: "runner_runTask demo_world (?svcs ! 1) ''startService'' = Some (Thrown ''boom'')"
    by (simp add: svcs numbered_services)
  from startServices_fail_fast [OF k before fails] reg
  show ?thesis
    by (simp add: svcs numbered_registry_eval numbered_registry_trace numbered_services)
qed

lemma proto_registry_eval:
  "fst (register demo_world [proto_service] (new_registry [])) = []"
  "own_props (plugins proto_registry) = []"
  "proto_obj (plugins proto_registry) = Some plugin_proto"
  "trace proto_registry = [RunTask plugin_proto ''bootstrap'']"
  "map doc_alias (pluginState proto_registry) = [''__proto__'']"
  by (simp_all add: proto_registry_def register_def registerPlugin_defs demo_defs
      service_defs new_registry_def index_plugin_def empty_object_def obj_set_def)

text \<open>
  C7. A service plugin declared under the alias \<^verbatim>\<open>__proto__\<close> registers without error: it
  is bootstrapped, its state document is written, and the flat table yields it for its
  alias. But \<^verbatim>\<open>this.plugins['__proto__'] = loaded\<close> has replaced the prototype of the table
  and created no own property, so \<^verbatim>\<open>Object.values(this.plugins)\<close> is empty and
  \<^verbatim>\<open>stopServices()\<close> returns without invoking \<^verbatim>\<open>stopService\<close> on it.
\<close>

theorem stopServices_misses_registered_service:
  "register demo_world [proto_service] (new_registry []) = ([], proto_registry)
   \<and> trace proto_registry = [RunTask plugin_proto ''bootstrap'']
   \<and> map doc_alias (pluginState proto_registry) = [''__proto__'']
   \<and> plugins_get (plugins proto_registry) ''__proto__'' = VPlugin plugin_proto
   \<and> declaration_registered demo_world proto_registry proto_service
   \<and> is_service plugin_proto
   \<and> obj_values (plugins proto_registry) = []
   \<and> stopServices demo_world proto_registry = (Inr (), proto_registry)"
proof -
  have reg: "register demo_world [proto_service] (new_registry []) = ([], proto_registry)"
    using proto_registry_eval(1) by (simp add: proto_registry_def prod_eq_iff)
  have lookup: "plugins_get (plugins proto_registry) ''__proto__'' = VPlugin plugin_proto"
    by (simp add: plugins_get_def obj_get_def proto_registry_eval)
  have declared: "declaration_registered demo_world proto_registry proto_service"
    by (simp add: declaration_registered_def registered_def lookup demo_defs
        proto_service_def effective_alias_def plugin_proto_def demo_plugin_def)
  have svc: "is_service plugin_proto"
    by (simp add: is_service_def plugin_proto_def demo_plugin_def mk_manifest_def)
  have none: "obj_values (plugins proto_registry) = []"
    by (simp add: obj_values_def proto_registry_eval)
  have "stopServices demo_world proto_registry = (Inr (), proto_registry)"
    using stopServices_best_effort [of demo_world proto_registry]
    by (simp add: none prod_eq_iff)
  with reg lookup declared svc none show ?thesis
    by (simp add: proto_registry_eval)
qed

end
